theory Spec2Isabelle
  imports Main "HOL-Library.Multiset"
begin

section \<open>Go primitives used by the embedded code\<close>

text \<open>
  Go's \<open>int\<close> is a 64-bit two's complement integer on the platforms the program is
  built for. It is modelled as a HOL \<open>int\<close> with the wrap-around written out.
  A byte slice is a \<open>string\<close> (a list of 8-bit characters); the nil slice and the
  empty slice are both the empty list.
\<close>

definition MaxInt64 :: int where
  "MaxInt64 = 9223372036854775807"

definition MinInt64 :: int where
  "MinInt64 = - 9223372036854775808"

definition wrap64 :: "int \<Rightarrow> int" where
  "wrap64 x = (x + 9223372036854775808) mod 18446744073709551616 - 9223372036854775808"

text \<open>A run-time panic of the Go program.\<close>

datatype go_panic = SliceBoundsOutOfRange | IndexOutOfRange

text \<open>The errors of package strconv.\<close>

datatype NumError = ErrSyntax | ErrRange

definition LF :: char where
  "LF = CHR 0x0A"

definition CR :: char where
  "CR = CHR 0x0D"

definition SP :: char where
  "SP = CHR 0x20"

text \<open>The cutset \<open>" \r\n"\<close> that the framing functions trim.\<close>

definition in_cutset :: "char \<Rightarrow> bool" where
  "in_cutset c = (c = SP \<or> c = CR \<or> c = LF)"

text \<open>\<open>bytes.TrimLeft(s, " \r\n")\<close> and \<open>bytes.Trim(s, " \r\n")\<close>.\<close>

definition TrimLeft :: "string \<Rightarrow> string" where
  "TrimLeft s = dropWhile in_cutset s"

definition Trim :: "string \<Rightarrow> string" where
  "Trim s = rev (dropWhile in_cutset (rev (dropWhile in_cutset s)))"

text \<open>
  \<open>bytes.IndexByte\<close> and \<open>bytes.IndexAny\<close> (for a set of ASCII bytes): the index of
  the first byte that satisfies the test, or \<open>-1\<close>.
\<close>

fun index_from :: "(char \<Rightarrow> bool) \<Rightarrow> string \<Rightarrow> int \<Rightarrow> int" where
  "index_from P [] i = - 1"
| "index_from P (c # cs) i = (if P c then i else index_from P cs (i + 1))"

definition IndexByte :: "string \<Rightarrow> char \<Rightarrow> int" where
  "IndexByte s b = index_from (\<lambda>c. c = b) s 0"

definition IndexAny_sp_lf :: "string \<Rightarrow> int" where
  "IndexAny_sp_lf s = index_from (\<lambda>c. c = SP \<or> c = LF) s 0"

text \<open>
  The slice expression \<open>s[lo:hi]\<close> on a byte slice of capacity \<open>c\<close>: Go panics unless
  \<open>0 \<le> lo \<le> hi \<le> cap(s)\<close>.
\<close>

definition slice :: "int \<Rightarrow> string \<Rightarrow> int \<Rightarrow> int \<Rightarrow> go_panic + string" where
  "slice c s lo hi =
     (if 0 \<le> lo \<and> lo \<le> hi \<and> hi \<le> c
      then Inr (take (nat (hi - lo)) (drop (nat lo) s))
      else Inl SliceBoundsOutOfRange)"

text \<open>
  \<open>strconv.ParseInt(s, 10, 64)\<close>: an optional sign followed by at least one decimal
  digit. A syntax error yields the value 0; a value out of range yields the nearest
  bound together with the range error.
\<close>

definition digit_val :: "char \<Rightarrow> nat option" where
  "digit_val c =
     (if 48 \<le> (of_char c :: nat) \<and> (of_char c :: nat) \<le> 57
      then Some (of_char c - 48) else None)"

fun parse_digits :: "string \<Rightarrow> nat \<Rightarrow> nat option" where
  "parse_digits [] acc = Some acc"
| "parse_digits (c # cs) acc =
     (case digit_val c of
        None \<Rightarrow> None
      | Some d \<Rightarrow> parse_digits cs (acc * 10 + d))"

definition ParseInt :: "string \<Rightarrow> int \<times> NumError option" where
  "ParseInt s =
     (case s of
        [] \<Rightarrow> (0, Some ErrSyntax)
      | c # cs \<Rightarrow>
          (let neg = (c = CHR ''-'');
               body = (if c = CHR ''+'' \<or> c = CHR ''-'' then cs else s)
           in if body = [] then (0, Some ErrSyntax)
              else (case parse_digits body 0 of
                      None \<Rightarrow> (0, Some ErrSyntax)
                    | Some n \<Rightarrow>
                        if \<not> neg \<and> int n > MaxInt64 then (MaxInt64, Some ErrRange)
                        else if neg \<and> - int n < MinInt64 then (MinInt64, Some ErrRange)
                        else (if neg then - int n else int n, None))))"

text \<open>\<open>strconv.Atoi\<close> is \<open>ParseInt(s, 10, 0)\<close> converted to \<open>int\<close>.\<close>

definition Atoi :: "string \<Rightarrow> int \<times> NumError option" where
  "Atoi s = ParseInt s"

section \<open>TCP framing: \<open>TcpSplit\<close>\<close>

text \<open>
  The result of a split function: \<open>(advance, token, err)\<close>, or a panic.
  The argument \<open>dcap\<close> is the capacity of \<open>data\<close> (at least its length);
  \<open>trimmed_data\<close> is a subslice of \<open>data\<close> and has the capacity \<open>dcap - trimmed\<close>.
\<close>

type_synonym split_result = "go_panic + (int \<times> string \<times> NumError option)"

definition TcpSplit :: "int \<Rightarrow> string \<Rightarrow> bool \<Rightarrow> split_result" where
  "TcpSplit dcap data atEOF =
     (let trimmed_data = TrimLeft data in
      if length trimmed_data = 0 then Inr (0, [], None)
      else
        let trimmed = int (length data) - int (length trimmed_data);
            tcap = dcap - trimmed in
        if hd trimmed_data = CHR ''<'' then
          (let lf = IndexByte trimmed_data LF in
           if lf \<ge> 0 then
             (case slice tcap trimmed_data 0 lf of
                Inl p \<Rightarrow> Inl p
              | Inr t \<Rightarrow> Inr (wrap64 (trimmed + lf + 1), Trim t, None))
           else Inr (0, [], None))
        else
          (let sp = IndexAny_sp_lf trimmed_data in
           if sp \<le> 0 then Inr (0, [], None)
           else
             (case slice tcap trimmed_data 0 sp of
                Inl p \<Rightarrow> Inl p
              | Inr d \<Rightarrow>
                  (let datalen_s = Trim d in
                   case Atoi datalen_s of
                     (datalen, Some err) \<Rightarrow> Inr (0, [], Some err)
                   | (datalen, None) \<Rightarrow>
                       (let advance = wrap64 (trimmed + sp + 1 + datalen) in
                        if int (length data) \<ge> advance then
                          (case slice tcap trimmed_data (wrap64 (sp + 1))
                                  (wrap64 (sp + 1 + datalen)) of
                             Inl p \<Rightarrow> Inl p
                           | Inr t \<Rightarrow> Inr (advance, Trim t, None))
                        else Inr (0, [], None))))))"

section \<open>Shared model: messages, configurations, effects\<close>

text \<open>
  A \<open>time.Time\<close> is modelled by its number of nanoseconds since the Unix epoch.
  The zero \<open>Time\<close> (January 1, year 1, 00:00:00 UTC) lies 62135596800 seconds before
  the epoch; \<open>time.Unix(0, nsec)\<close> is the instant \<open>nsec\<close> nanoseconds after the epoch.
\<close>

type_synonym Time = int

definition ZeroTime :: Time where
  "ZeroTime = - 62135596800000000000"

definition IsZero :: "Time \<Rightarrow> bool" where
  "IsZero t = (t = ZeroTime)"

definition time_Unix0 :: "int \<Rightarrow> Time" where
  "time_Unix0 nsec = nsec"

text \<open>
  \<open>model.SyslogMessage\<close>, with the fields that the sources read or write. The zero value
  of the struct is \<open>SyslogMessage0\<close>.
\<close>

record SyslogMessage =
  Priority :: int
  Facility :: int
  Severity :: int
  TimeReported :: Time
  TimeGenerated :: Time
  Hostname :: string
  Appname :: string
  Procid :: string
  Message :: string
  Properties :: "string \<rightharpoonup> (string \<rightharpoonup> string)"

definition SyslogMessage0 :: SyslogMessage where
  "SyslogMessage0 =
     \<lparr>Priority = 0, Facility = 0, Severity = 0, TimeReported = ZeroTime,
      TimeGenerated = ZeroTime, Hostname = [], Appname = [], Procid = [], Message = [],
      Properties = Map.empty\<rparr>"

text \<open>\<open>model.ParsedMessage\<close>; \<open>Fields\<close> is a pointer and may be nil.\<close>

record ParsedMessage =
  Fields :: "SyslogMessage option"
  Client :: string
  LocalPort :: int
  UnixSocketPath :: string

text \<open>\<open>model.TcpUdpParsedMessage\<close>: the message as the store holds it.\<close>

record TcpUdpParsedMessage =
  Parsed :: ParsedMessage
  Uid :: string
  ConfId :: string

text \<open>\<open>model.RawMessage\<close>: what a listener hands to the parser.\<close>

record RawMessage =
  raw_Client :: string
  raw_LocalPort :: int
  raw_UnixSocketPath :: string
  raw_Message :: string

text \<open>\<open>conf.SyslogConfig\<close>, with the fields that the sources read.\<close>

record SyslogConfig =
  ConfID :: string
  Format :: string
  DontParseSD :: bool
  FilterFunc :: string
  TopicFunc :: string
  TopicTmpl :: string
  PartitionFunc :: string
  PartitionTmpl :: string

text \<open>\<open>sarama.ProducerMessage\<close> and \<open>sarama.ProducerError\<close>.\<close>

record ProducerMessage =
  Topic :: string
  Key :: string
  Value :: string
  Metadata :: string

record ProducerError =
  Msg :: ProducerMessage
  Err :: string

text \<open>
  Modelled from the spec: the verdict type \<open>javascript.FilterResult\<close>, whose declaration
  is not among the sources. The spec gives the verdicts PASS, DROPPED, REJECTED and
  ERROR; \<open>ERROR\<close> stands for every value other than the three that the forwarder names.
\<close>

datatype FilterResult = DROPPED | REJECTED | PASS | ERROR

text \<open>
  \<open>javascript.FilterEnvironment\<close>: the three methods that the forwarder calls.
  \<open>env_Topic\<close> and \<open>env_PartitionKey\<close> return the computed string and the errors met;
  \<open>env_FilterMessage\<close> returns the transformed message (nil or not), the verdict and an
  error.
\<close>

record FilterEnvironment =
  env_Topic :: "SyslogMessage option \<Rightarrow> string \<times> string list"
  env_PartitionKey :: "SyslogMessage option \<Rightarrow> string \<times> string list"
  env_FilterMessage ::
    "SyslogMessage option \<Rightarrow> SyslogMessage option \<times> FilterResult \<times> string option"

text \<open>
  The collaborators of the forwarder that are not among the sources, taken as
  parameters: the store's \<open>GetSyslogConfig\<close> (\<open>Inl\<close> is the error),
  \<open>javascript.NewFilterEnvironment\<close>, \<open>ParsedMessage.ToKafkaMessage\<close> and
  \<open>model.IsFatalKafkaError\<close>.
\<close>

record collaborators =
  GetSyslogConfig :: "string \<Rightarrow> string + SyslogConfig"
  NewFilterEnvironment ::
    "string \<Rightarrow> string \<Rightarrow> string \<Rightarrow> string \<Rightarrow> string \<Rightarrow> FilterEnvironment"
  ToKafkaMessage :: "ParsedMessage \<Rightarrow> string \<Rightarrow> string \<Rightarrow> string + ProducerMessage"
  IsFatalKafkaError :: "string \<Rightarrow> bool"

text \<open>A Kafka producer is a handle; the nil producer is \<open>None\<close>.\<close>

type_synonym AsyncProducer = nat

text \<open>The goroutines that \<open>doForward\<close> starts.\<close>

datatype task =
    ListenKafkaResponses AsyncProducer
  | GetAndSendMessages "AsyncProducer option"

text \<open>
  The effects of the forwarder, in the order in which a goroutine performs them:
  the three terminal calls on the store, the send on the producer's input channel, the
  close of the producer, a line on standard output, a log record (level and message),
  the increment of a counter (name and label values), the close of the error channel,
  an attempt to create a producer, a sleep (in milliseconds), the operations on the
  wait group and the start of a goroutine. The listeners add the receipt of a message
  identifier from the generator and the call of \<open>Stash\<close>.
\<close>

datatype event =
    ACK string
  | NACK string
  | PermError string
  | ProducerInput ProducerMessage
  | AsyncClose
  | Println string
  | Log string string
  | CounterInc string "string list"
  | CloseErrorChan
  | GetAsyncProducer
  | Sleep nat
  | WgAdd
  | WgDone
  | Go task
  | NextUid string
  | Stash TcpUdpParsedMessage

text \<open>Projections of a trace: terminal store calls, their uids, sends, printed lines.\<close>

fun is_terminal :: "event \<Rightarrow> bool" where
  "is_terminal (ACK u) = True"
| "is_terminal (NACK u) = True"
| "is_terminal (PermError u) = True"
| "is_terminal e = False"

definition store_calls :: "event list \<Rightarrow> event list" where
  "store_calls evs = filter is_terminal evs"

fun terminal_uid :: "event \<Rightarrow> string list" where
  "terminal_uid (ACK u) = [u]"
| "terminal_uid (NACK u) = [u]"
| "terminal_uid (PermError u) = [u]"
| "terminal_uid e = []"

definition terminal_uids :: "event list \<Rightarrow> string list" where
  "terminal_uids evs = concat (map terminal_uid evs)"

fun sent_message :: "event \<Rightarrow> ProducerMessage list" where
  "sent_message (ProducerInput km) = [km]"
| "sent_message e = []"

definition sends :: "event list \<Rightarrow> ProducerMessage list" where
  "sends evs = concat (map sent_message evs)"

fun printed_line :: "event \<Rightarrow> string list" where
  "printed_line (Println l) = [l]"
| "printed_line e = []"

definition printed :: "event list \<Rightarrow> string list" where
  "printed evs = concat (map printed_line evs)"

text \<open>
  The uids that a trace accounts for: those it has settled with a terminal store call
  and those it has handed to the producer.
\<close>

definition accounted :: "event list \<Rightarrow> string multiset" where
  "accounted evs = mset (terminal_uids evs) + image_mset Metadata (mset (sends evs))"

text \<open>The uids acknowledged, the uids refused and the closes of the error channel.\<close>

fun acked_uid :: "event \<Rightarrow> string list" where
  "acked_uid (ACK u) = [u]"
| "acked_uid e = []"

definition acked :: "event list \<Rightarrow> string list" where
  "acked evs = concat (map acked_uid evs)"

fun nacked_uid :: "event \<Rightarrow> string list" where
  "nacked_uid (NACK u) = [u]"
| "nacked_uid e = []"

definition nacked :: "event list \<Rightarrow> string list" where
  "nacked evs = concat (map nacked_uid evs)"

definition closes :: "event list \<Rightarrow> nat" where
  "closes evs = length (filter (\<lambda>e. e = CloseErrorChan) evs)"

text \<open>The messages stashed and the counters incremented.\<close>

fun stashed_message :: "event \<Rightarrow> TcpUdpParsedMessage list" where
  "stashed_message (Stash m) = [m]"
| "stashed_message e = []"

definition stashed :: "event list \<Rightarrow> TcpUdpParsedMessage list" where
  "stashed evs = concat (map stashed_message evs)"

fun counter_name :: "event \<Rightarrow> string list" where
  "counter_name (CounterInc c labels) = [c]"
| "counter_name e = []"

definition counters :: "event list \<Rightarrow> string list" where
  "counters evs = concat (map counter_name evs)"

text \<open>The values that a channel still delivers.\<close>

fun chan_list :: "'a list option \<Rightarrow> 'a list" where
  "chan_list None = []"
| "chan_list (Some xs) = xs"

section \<open>The forwarder: \<open>store/forwarder.go\<close>\<close>

subsection \<open>\<open>getAndSendMessages\<close>\<close>

text \<open>
  The forwarder dereferences \<open>fwder.metrics\<close> and \<open>fwder.logger\<close> without a test; both
  are taken to be non-nil, as \<open>Serve\<close> passes them. The filter environments are taken
  to be functions of the message.

  Lines 108 to 125: the environment of the message's configuration, from the cache
  \<open>jsenvs\<close> or built from the stored configuration. \<open>Inl\<close> is the branch that ends the
  iteration when the configuration is not found.
\<close>

type_synonym jsenvs = "string \<rightharpoonup> FilterEnvironment"

definition lookup_env ::
  "collaborators \<Rightarrow> jsenvs \<Rightarrow> TcpUdpParsedMessage \<Rightarrow> event list + FilterEnvironment \<times> jsenvs"
where
  "lookup_env W envs message =
     (case envs (ConfId message) of
        Some env \<Rightarrow> Inr (env, envs)
      | None \<Rightarrow>
          (case GetSyslogConfig W (ConfId message) of
             Inl err \<Rightarrow>
               Inl [Log ''warn'' ''Could not find the stored configuration for a message'',
                    PermError (Uid message)]
           | Inr config \<Rightarrow>
               (let env = NewFilterEnvironment W (FilterFunc config) (TopicFunc config)
                            (TopicTmpl config) (PartitionFunc config) (PartitionTmpl config)
                in Inr (env, envs(ConfId message \<mapsto> env)))))"

text \<open>Lines 166 to 190: build the Kafka message and send it, or print it in test mode.\<close>

definition send_message ::
  "collaborators \<Rightarrow> AsyncProducer option \<Rightarrow> TcpUdpParsedMessage \<Rightarrow> SyslogMessage option \<Rightarrow>
   string \<Rightarrow> string \<Rightarrow> event list"
where
  "send_message W producer message tmsg partitionKey topic =
     (let nmsg = \<lparr>Fields = tmsg, Client = Client (Parsed message),
                  LocalPort = LocalPort (Parsed message),
                  UnixSocketPath = UnixSocketPath (Parsed message)\<rparr>
      in case ToKafkaMessage W nmsg partitionKey topic of
           Inl err \<Rightarrow> [Log ''warn'' ''Error generating Kafka message'', PermError (Uid message)]
         | Inr kafkaMsg0 \<Rightarrow>
             (let kafkaMsg = kafkaMsg0\<lparr>Metadata := Uid message\<rparr>
              in case producer of
                   None \<Rightarrow>
                     [Log ''info'' ''Message'', Println (Value kafkaMsg), Println [],
                      ACK (Uid message)]
                 | Some p \<Rightarrow> [ProducerInput kafkaMsg]))"

text \<open>Lines 142 to 164: the filter and the switch on its verdict.\<close>

definition filter_and_send ::
  "collaborators \<Rightarrow> AsyncProducer option \<Rightarrow> FilterEnvironment \<Rightarrow> TcpUdpParsedMessage \<Rightarrow>
   string \<Rightarrow> string \<Rightarrow> event list"
where
  "filter_and_send W producer env message partitionKey topic =
     (case env_FilterMessage env (Fields (Parsed message)) of
        (tmsg, filterResult, err) \<Rightarrow>
          (case filterResult of
             DROPPED \<Rightarrow>
               [ACK (Uid message),
                CounterInc ''MessageFilteringCounter'' [''dropped'', Client (Parsed message)]]
           | REJECTED \<Rightarrow>
               [CounterInc ''MessageFilteringCounter'' [''rejected'', Client (Parsed message)],
                NACK (Uid message)]
           | PASS \<Rightarrow>
               CounterInc ''MessageFilteringCounter'' [''passing'', Client (Parsed message)] #
               (if tmsg = None then [ACK (Uid message)]
                else send_message W producer message tmsg partitionKey topic)
           | ERROR \<Rightarrow>
               [PermError (Uid message),
                Log ''warn'' ''Error happened processing message'',
                CounterInc ''MessageFilteringCounter'' [''unknown'', Client (Parsed message)]]))"

text \<open>Lines 127 to 140: topic and partition key, and the test that neither is empty.\<close>

definition route_message ::
  "collaborators \<Rightarrow> AsyncProducer option \<Rightarrow> FilterEnvironment \<Rightarrow> TcpUdpParsedMessage \<Rightarrow>
   event list"
where
  "route_message W producer env message =
     (case env_Topic env (Fields (Parsed message)) of
        (topic, errs) \<Rightarrow>
          (case env_PartitionKey env (Fields (Parsed message)) of
             (partitionKey, errs') \<Rightarrow>
               map (\<lambda>e. Log ''info'' ''Error calculating topic'') errs @
               map (\<lambda>e. Log ''info'' ''Error calculating the partition key'') errs' @
               (if length topic = 0 \<or> length partitionKey = 0
                then [Log ''warn'' ''Topic or PartitionKey could not be calculated'',
                      PermError (Uid message)]
                else filter_and_send W producer env message partitionKey topic)))"

text \<open>One iteration of the loop \<open>ForOutputs\<close> for a message received from \<open>Outputs\<close>.\<close>

definition handle_message ::
  "collaborators \<Rightarrow> AsyncProducer option \<Rightarrow> jsenvs \<Rightarrow> TcpUdpParsedMessage \<Rightarrow>
   event list \<times> jsenvs"
where
  "handle_message W producer envs message =
     (case lookup_env W envs message of
        Inl evs \<Rightarrow> (evs, envs)
      | Inr (env, envs') \<Rightarrow> (route_message W producer env message, envs'))"

text \<open>
  The loop over the messages received from \<open>Outputs\<close> until the context is done or the
  channel is closed. \<open>run_outputs\<close> gives the effects of each iteration in turn.
\<close>

fun run_outputs ::
  "collaborators \<Rightarrow> AsyncProducer option \<Rightarrow> jsenvs \<Rightarrow> TcpUdpParsedMessage list \<Rightarrow>
   event list list"
where
  "run_outputs W producer envs [] = []"
| "run_outputs W producer envs (message # rest) =
     (case handle_message W producer envs message of
        (evs, envs') \<Rightarrow> evs # run_outputs W producer envs' rest)"

text \<open>The whole goroutine, with the deferred close of the producer and \<open>wg.Done\<close>.\<close>

definition getAndSendMessages ::
  "collaborators \<Rightarrow> AsyncProducer option \<Rightarrow> TcpUdpParsedMessage list \<Rightarrow> event list"
where
  "getAndSendMessages W producer messages =
     concat (run_outputs W producer Map.empty messages) @
     (case producer of None \<Rightarrow> [] | Some p \<Rightarrow> [AsyncClose]) @ [WgDone]"

subsection \<open>\<open>listenKafkaResponses\<close>\<close>

text \<open>The two branches of the select when a value is received (\<open>more\<close> is true).\<close>

definition on_success :: "ProducerMessage \<Rightarrow> event list" where
  "on_success succ =
     [ACK (Metadata succ), CounterInc ''KafkaAckNackCounter'' [''ack'', Topic succ]]"

text \<open>\<open>once\<close> tells whether the \<open>sync.Once\<close> of this call has already run.\<close>

definition on_failure :: "collaborators \<Rightarrow> bool \<Rightarrow> ProducerError \<Rightarrow> event list \<times> bool" where
  "on_failure W once fail =
     ([NACK (Metadata (Msg fail)), Log ''info'' ''Kafka producer error''] @
      (if IsFatalKafkaError W (Err fail) \<and> \<not> once then [CloseErrorChan] else []) @
      [CounterInc ''KafkaAckNackCounter'' [''nack'', Topic (Msg fail)]],
      once \<or> IsFatalKafkaError W (Err fail))"

text \<open>
  A channel is the list of the values that it still delivers before it is closed;
  the nil channel is \<open>None\<close>. A receive yields the next value, or tells that the channel
  is closed (\<open>more\<close> is false), after which the loop sets its variable to nil.
  When both channels can be read, the head of the schedule \<open>sched\<close> tells which case
  the select takes (\<open>True\<close>: the successes). With both channels nil the loop returns.
\<close>

datatype received =
    RecvSucc ProducerMessage
  | SuccClosed
  | RecvFail ProducerError
  | FailClosed

definition take_succ :: "bool list \<Rightarrow> bool" where
  "take_succ sched = (case sched of [] \<Rightarrow> True | b # bs \<Rightarrow> b)"

definition read_succ ::
  "ProducerMessage list \<Rightarrow> ProducerError list option \<Rightarrow>
   received \<times> ProducerMessage list option \<times> ProducerError list option"
where
  "read_succ ss failChan =
     (case ss of
        [] \<Rightarrow> (SuccClosed, None, failChan)
      | succ # ss' \<Rightarrow> (RecvSucc succ, Some ss', failChan))"

definition read_fail ::
  "ProducerMessage list option \<Rightarrow> ProducerError list \<Rightarrow>
   received \<times> ProducerMessage list option \<times> ProducerError list option"
where
  "read_fail succChan fs =
     (case fs of
        [] \<Rightarrow> (FailClosed, succChan, None)
      | fail # fs' \<Rightarrow> (RecvFail fail, succChan, Some fs'))"

fun kafka_select ::
  "bool list \<Rightarrow> ProducerMessage list option \<Rightarrow> ProducerError list option \<Rightarrow>
   (received \<times> ProducerMessage list option \<times> ProducerError list option) option"
where
  "kafka_select sched None None = None"
| "kafka_select sched (Some ss) None = Some (read_succ ss None)"
| "kafka_select sched None (Some fs) = Some (read_fail None fs)"
| "kafka_select sched (Some ss) (Some fs) =
     Some (if take_succ sched then read_succ ss (Some fs) else read_fail (Some ss) fs)"

definition on_receive :: "collaborators \<Rightarrow> bool \<Rightarrow> received \<Rightarrow> event list \<times> bool" where
  "on_receive W once r =
     (case r of
        RecvSucc succ \<Rightarrow> (on_success succ, once)
      | SuccClosed \<Rightarrow> ([], once)
      | RecvFail fail \<Rightarrow> on_failure W once fail
      | FailClosed \<Rightarrow> ([], once))"

fun chan_size :: "'a list option \<Rightarrow> nat" where
  "chan_size None = 0"
| "chan_size (Some xs) = Suc (length xs)"

function listen_loop ::
  "collaborators \<Rightarrow> bool list \<Rightarrow> bool \<Rightarrow> ProducerMessage list option \<Rightarrow>
   ProducerError list option \<Rightarrow> event list"
where
  "listen_loop W sched once succChan failChan =
     (case kafka_select sched succChan failChan of
        None \<Rightarrow> []
      | Some (r, succChan', failChan') \<Rightarrow>
          fst (on_receive W once r) @
          listen_loop W (tl sched) (snd (on_receive W once r)) succChan' failChan')"
  by pat_completeness auto
termination
proof (relation "measure (\<lambda>(W, sched, once, sc, fc). chan_size sc + chan_size fc)")
  show "wf (measure (\<lambda>(W, sched, once, sc, fc). chan_size sc + chan_size fc))"
    by simp
next
  fix W :: collaborators and sched once succChan failChan x2 r y succChan' failChan'
  assume "kafka_select sched succChan failChan = Some x2"
    and "(r, y) = x2" and "(succChan', failChan') = y"
  then have sel: "kafka_select sched succChan failChan = Some (r, succChan', failChan')"
    by simp
  have "chan_size succChan' + chan_size failChan' < chan_size succChan + chan_size failChan"
    using sel
    by (cases succChan; cases failChan)
      (auto simp add: read_succ_def read_fail_def split: list.splits if_splits)
  then show "((W, tl sched, snd (on_receive W once r), succChan', failChan'),
              (W, sched, once, succChan, failChan))
             \<in> measure (\<lambda>(W, sched, once, sc, fc). chan_size sc + chan_size fc)"
    by simp
qed

declare listen_loop.simps [simp del]

text \<open>The goroutine: a fresh \<open>sync.Once\<close>, the loop, and the deferred \<open>wg.Done\<close>.\<close>

definition listenKafkaResponses ::
  "collaborators \<Rightarrow> bool list \<Rightarrow> ProducerMessage list \<Rightarrow> ProducerError list \<Rightarrow> event list"
where
  "listenKafkaResponses W sched succChan failChan =
     listen_loop W sched False (Some succChan) (Some failChan) @ [WgDone]"

subsection \<open>\<open>getProducer\<close> and \<open>doForward\<close>\<close>

text \<open>
  The outcome of one turn of the loop of \<open>getProducer\<close>: a producer; an error followed by
  the two-second timer; an error followed by the cancellation of the context. With no
  outcome left the function has not returned (\<open>None\<close>).
\<close>

datatype attempt = Connected AsyncProducer | FailedRetry | FailedCancelled

fun getProducer :: "attempt list \<Rightarrow> (event list \<times> AsyncProducer option) option" where
  "getProducer [] = None"
| "getProducer (Connected p # rest) =
     Some ([GetAsyncProducer, Log ''debug'' ''Got a Kafka producer''], Some p)"
| "getProducer (FailedCancelled # rest) =
     Some ([GetAsyncProducer, CounterInc ''KafkaConnectionErrorCounter'' [],
            Log ''warn'' ''Error getting a Kafka client''], None)"
| "getProducer (FailedRetry # rest) =
     (case getProducer rest of
        None \<Rightarrow> None
      | Some (evs, r) \<Rightarrow>
          Some ([GetAsyncProducer, CounterInc ''KafkaConnectionErrorCounter'' [],
                 Log ''warn'' ''Error getting a Kafka client'', Sleep 2000] @ evs, r))"

definition doForward :: "bool \<Rightarrow> attempt list \<Rightarrow> event list option" where
  "doForward test attempts =
     (if \<not> test then
        (case getProducer attempts of
           None \<Rightarrow> None
         | Some (evs, None) \<Rightarrow> Some (evs @ [WgDone])
         | Some (evs, Some producer) \<Rightarrow>
             Some (evs @ [WgAdd, Go (ListenKafkaResponses producer),
                          WgAdd, Go (GetAndSendMessages (Some producer)), WgDone]))
      else Some [WgAdd, Go (GetAndSendMessages None), WgDone])"

section \<open>\<open>Forward\<close>: the forwarding flag and the wait group\<close>

text \<open>
  \<open>Forward\<close> (lines 51 to 64) is called from several goroutines and starts goroutines
  itself. Its behaviour is modelled by the interleavings of the atomic steps of all these
  goroutines on the shared state: the flag \<open>fwder.forwarding\<close>, the counter of the wait
  group \<open>fwder.wg\<close>, and for every program point the number of goroutines that execute
  their next step there. The program points are

  \<^item> in \<open>Forward\<close>: \<open>F_cas\<close> before the compare-and-swap of line 53, \<open>F_make\<close> before line 56,
    \<open>F_add\<close> before \<open>wg.Add(1)\<close> of line 57, \<open>F_go_do\<close> before \<open>go fwder.doForward\<close>,
    \<open>F_go_wait\<close> before the \<open>go\<close> statement of line 59, after which the call returns true;
  \<^item> in \<open>doForward\<close>: \<open>D_start\<close> at its start (in test mode it goes on to line 84; otherwise
    it calls \<open>getProducer\<close> and either returns at line 75 or goes on to line 80),
    \<open>D_add_listen\<close> and \<open>D_go_listen\<close> before lines 80 and 81, \<open>D_add_send\<close> and \<open>D_go_send\<close>
    before lines 84 and 85, \<open>D_done\<close> before the deferred \<open>wg.Done()\<close>;
  \<^item> \<open>L_run\<close> and \<open>S_run\<close>: \<open>listenKafkaResponses\<close> and \<open>getAndSendMessages\<close> before their
    deferred \<open>wg.Done()\<close>;
  \<^item> in the goroutine of lines 59 to 62: \<open>W_wait\<close> before \<open>wg.Wait()\<close>, which returns only
    when the counter is zero, and \<open>W_store\<close> before \<open>StoreInt32(&forwarding, 0)\<close>.
\<close>

datatype pc =
    F_cas | F_make | F_add | F_go_do | F_go_wait
  | D_start | D_add_listen | D_go_listen | D_add_send | D_go_send | D_done
  | L_run | S_run
  | W_wait | W_store

text \<open>
  The state also counts the calls of \<open>Forward\<close> whose compare-and-swap has succeeded
  (they return true) or failed (they return false), and the stores that have cleared
  the flag. \<open>test\<close> is the field \<open>fwder.test\<close>.
\<close>

record fstate =
  forwarding :: int
  wg :: int
  threads :: "pc \<Rightarrow> nat"
  test :: bool
  succeeded :: nat
  failed :: nat
  cleared :: nat

definition init_fstate :: "bool \<Rightarrow> fstate" where
  "init_fstate t =
     \<lparr>forwarding = 0, wg = 0, threads = (\<lambda>p. 0), test = t,
      succeeded = 0, failed = 0, cleared = 0\<rparr>"

text \<open>
  An action is a new call of \<open>Forward\<close>, or the next step of a goroutine at a program
  point. The boolean of \<open>Run\<close> is read at \<open>D_start\<close> only: it tells whether \<open>getProducer\<close>
  returns a producer.
\<close>

datatype action = Call | Run pc bool

definition leave :: "pc \<Rightarrow> fstate \<Rightarrow> fstate" where
  "leave p s = s\<lparr>threads := (threads s)(p := threads s p - 1)\<rparr>"

definition enter :: "pc \<Rightarrow> fstate \<Rightarrow> fstate" where
  "enter p s = s\<lparr>threads := (threads s)(p := threads s p + 1)\<rparr>"

definition wg_Add :: "int \<Rightarrow> fstate \<Rightarrow> fstate" where
  "wg_Add d s = s\<lparr>wg := wg s + d\<rparr>"

text \<open>
  \<open>atomic.CompareAndSwapInt32(&fwder.forwarding, 0, 1)\<close>: the result and the new value of
  the flag.
\<close>

definition CompareAndSwap_0_1 :: "int \<Rightarrow> bool \<times> int" where
  "CompareAndSwap_0_1 v = (if v = 0 then (True, 1) else (False, v))"

text \<open>The step of a goroutine at the program point \<open>p\<close>; \<open>None\<close> when it is blocked.\<close>

fun run :: "pc \<Rightarrow> bool \<Rightarrow> fstate \<Rightarrow> fstate option" where
  "run F_cas b s =
     (case CompareAndSwap_0_1 (forwarding s) of
        (True, v) \<Rightarrow> Some (enter F_make (s\<lparr>forwarding := v, succeeded := succeeded s + 1\<rparr>))
      | (False, v) \<Rightarrow> Some (s\<lparr>forwarding := v, failed := failed s + 1\<rparr>))"
| "run F_make b s = Some (enter F_add s)"
| "run F_add b s = Some (enter F_go_do (wg_Add 1 s))"
| "run F_go_do b s = Some (enter F_go_wait (enter D_start s))"
| "run F_go_wait b s = Some (enter W_wait s)"
| "run D_start b s =
     Some (enter (if test s then D_add_send else if b then D_add_listen else D_done) s)"
| "run D_add_listen b s = Some (enter D_go_listen (wg_Add 1 s))"
| "run D_go_listen b s = Some (enter D_add_send (enter L_run s))"
| "run D_add_send b s = Some (enter D_go_send (wg_Add 1 s))"
| "run D_go_send b s = Some (enter D_done (enter S_run s))"
| "run D_done b s = Some (wg_Add (- 1) s)"
| "run L_run b s = Some (wg_Add (- 1) s)"
| "run S_run b s = Some (wg_Add (- 1) s)"
| "run W_wait b s = (if wg s = 0 then Some (enter W_store s) else None)"
| "run W_store b s = Some (s\<lparr>forwarding := 0, cleared := cleared s + 1\<rparr>)"

definition step :: "fstate \<Rightarrow> action \<Rightarrow> fstate option" where
  "step s a =
     (case a of
        Call \<Rightarrow> Some (enter F_cas s)
      | Run p b \<Rightarrow> if threads s p = 0 then None else run p b (leave p s))"

fun exec :: "fstate \<Rightarrow> action list \<Rightarrow> fstate option" where
  "exec s [] = Some s"
| "exec s (a # as) = (case step s a of None \<Rightarrow> None | Some s' \<Rightarrow> exec s' as)"

text \<open>
  The goroutines of a session, the goroutines that own the flag (a successful caller
  until it has started the waiting goroutine, then that goroutine), and the units
  of the wait group that the goroutines still have to give back with \<open>Done\<close>.
\<close>

definition session_threads :: "fstate \<Rightarrow> nat" where
  "session_threads s =
     threads s D_start + threads s D_add_listen + threads s D_go_listen +
     threads s D_add_send + threads s D_go_send + threads s D_done +
     threads s L_run + threads s S_run"

definition doForward_threads :: "fstate \<Rightarrow> nat" where
  "doForward_threads s =
     threads s D_start + threads s D_add_listen + threads s D_go_listen +
     threads s D_add_send + threads s D_go_send + threads s D_done"

definition owners :: "fstate \<Rightarrow> nat" where
  "owners s =
     threads s F_make + threads s F_add + threads s F_go_do + threads s F_go_wait +
     threads s W_wait + threads s W_store"

text \<open>The units of the wait group that a goroutine at a program point holds.\<close>

fun weight :: "pc \<Rightarrow> nat" where
  "weight F_go_do = 1"
| "weight D_start = 1"
| "weight D_add_listen = 1"
| "weight D_go_listen = 2"
| "weight D_add_send = 1"
| "weight D_go_send = 2"
| "weight D_done = 1"
| "weight L_run = 1"
| "weight S_run = 1"
| "weight p = 0"

definition units :: "fstate \<Rightarrow> nat" where
  "units s =
     threads s F_go_do + threads s D_start + threads s D_add_listen +
     2 * threads s D_go_listen + threads s D_add_send + 2 * threads s D_go_send +
     threads s D_done + threads s L_run + threads s S_run"

text \<open>
  The invariant of the reachable states, in three parts. The flag is 0 or 1, it is 1
  exactly when one goroutine owns it, and every success but the current one has been
  followed by a clear.
\<close>

definition flag_owned :: "fstate \<Rightarrow> bool" where
  "flag_owned s =
     ((forwarding s = 0 \<or> forwarding s = 1) \<and>
      owners s = (if forwarding s = 1 then 1 else 0) \<and>
      succeeded s = cleared s + (if forwarding s = 1 then 1 else 0))"

text \<open>
  The counter of the wait group is the number of units still to be given back; while it
  is positive the waiting goroutine has not passed \<open>wg.Wait()\<close>.
\<close>

definition wg_counts :: "fstate \<Rightarrow> bool" where
  "wg_counts s =
     (wg s = int (units s) \<and>
      (units s > 0 \<longrightarrow> threads s F_go_do + threads s F_go_wait + threads s W_wait > 0) \<and>
      (threads s W_store > 0 \<longrightarrow> units s = 0) \<and>
      (threads s F_make + threads s F_add > 0 \<longrightarrow> units s = 0) \<and>
      (threads s F_go_do > 0 \<longrightarrow> units s = 1))"

text \<open>
  At most one \<open>doForward\<close>, one listener and one sender run, and the listener and the
  sender are those that this \<open>doForward\<close> has started.
\<close>

definition one_session :: "fstate \<Rightarrow> bool" where
  "one_session s =
     (doForward_threads s \<le> 1 \<and> threads s L_run \<le> 1 \<and> threads s S_run \<le> 1 \<and>
      (threads s D_start + threads s D_add_listen + threads s D_go_listen > 0 \<longrightarrow>
         threads s L_run = 0) \<and>
      (threads s D_start + threads s D_add_listen + threads s D_go_listen +
       threads s D_add_send + threads s D_go_send > 0 \<longrightarrow> threads s S_run = 0))"

definition fwd_inv :: "fstate \<Rightarrow> bool" where
  "fwd_inv s = (flag_owned s \<and> wg_counts s \<and> one_session s)"

text \<open>
  A schedule: two goroutines call \<open>Forward\<close> on a new forwarder and both run the
  compare-and-swap before anything else happens; then the session of the successful call
  runs (\<open>doForward\<close> with a producer, the listener, the sender) and ends, and the waiting
  goroutine passes \<open>wg.Wait()\<close>.
\<close>

definition ex_schedule :: "action list" where
  "ex_schedule =
     [Call, Call, Run F_cas False, Run F_cas False, Run F_make False, Run F_add False,
      Run F_go_do False, Run F_go_wait False, Run D_start True, Run D_add_listen False,
      Run D_go_listen False, Run D_add_send False, Run D_go_send False, Run D_done False,
      Run S_run False, Run L_run False, Run W_wait False]"

section \<open>The TCP service: parsing and stashing\<close>

text \<open>
  The goroutine of \<open>tcpHandler.HandleConnection\<close> that pulls the raw messages of a
  connection, parses them and pushes them to the store (lines 153 to 184).

  \<open>h_metrics\<close> tells whether \<open>s.metrics\<close> is non-nil. \<open>h_GetParser\<close> is \<open>e.GetParser\<close>: the
  parser of a format, or nil; a parser returns the parsed message or an error (\<open>Inl\<close>).
  The generator is the sequence \<open>gen\<close> of the identifiers that the goroutine receives
  from the channel \<open>s.generator\<close>; \<open>k\<close> counts those it has received.
\<close>

type_synonym parser = "string \<Rightarrow> bool \<Rightarrow> string + SyslogMessage option"

record tcp_handler =
  h_metrics :: bool
  h_GetParser :: "string \<Rightarrow> parser option"

text \<open>One iteration of the loop over \<open>raw_messages_chan\<close>.\<close>

definition parse_raw ::
  "tcp_handler \<Rightarrow> SyslogConfig \<Rightarrow> string \<Rightarrow> (nat \<Rightarrow> string) \<Rightarrow> nat \<Rightarrow> RawMessage \<Rightarrow>
   event list \<times> nat"
where
  "parse_raw h config client gen k m =
     (case h_GetParser h (Format config) of
        None \<Rightarrow> ([Log ''error'' ''Unknown parser''], k)
      | Some parser \<Rightarrow>
          (case parser (raw_Message m) (DontParseSD config) of
             Inr p \<Rightarrow>
               (let uid = gen k;
                    parsed_msg =
                      \<lparr>Parsed = \<lparr>Fields = p, Client = raw_Client m,
                                  LocalPort = raw_LocalPort m,
                                  UnixSocketPath = raw_UnixSocketPath m\<rparr>,
                       Uid = uid, ConfId = ConfID config\<rparr>
                in ([NextUid uid, Stash parsed_msg], k + 1))
           | Inl err \<Rightarrow>
               ((if h_metrics h
                 then [CounterInc ''ParsingErrorCounter'' [Format config, client]] else []) @
                [Log ''info'' ''Parsing error''], k)))"

text \<open>The loop, until the channel is closed, and the deferred \<open>s.wg.Done()\<close>.\<close>

fun parse_loop ::
  "tcp_handler \<Rightarrow> SyslogConfig \<Rightarrow> string \<Rightarrow> (nat \<Rightarrow> string) \<Rightarrow> nat \<Rightarrow> RawMessage list \<Rightarrow>
   event list \<times> nat"
where
  "parse_loop h config client gen k [] = ([WgDone], k)"
| "parse_loop h config client gen k (m # ms) =
     (case parse_raw h config client gen k m of
        (evs, k') \<Rightarrow>
          (case parse_loop h config client gen k' ms of
             (evs', k'') \<Rightarrow> (evs @ evs', k'')))"

text \<open>The messages that a parser accepts, in order.\<close>

definition parsed_ok :: "parser \<Rightarrow> SyslogConfig \<Rightarrow> RawMessage list \<Rightarrow> SyslogMessage option list" where
  "parsed_ok parser config ms =
     concat (map (\<lambda>m. case parser (raw_Message m) (DontParseSD config) of
                         Inl err \<Rightarrow> [] | Inr p \<Rightarrow> [p]) ms)"

section \<open>Journald entries: \<open>EntryToSyslog\<close>\<close>

text \<open>
  \<open>strings.ToLower\<close> and \<open>strings.HasPrefix(k, "_")\<close>. On a string of ASCII bytes
  (all below 128) \<open>ToLower\<close> adds 32 to the letters \<open>A\<close> to \<open>Z\<close>, that is, it sets the bit of
  weight 32, and leaves the other bytes as they are. On any other string it maps the
  runes by the Unicode case tables of the Go library; these tables are not among the
  sources, and the mapping of such strings is the parameter \<open>U\<close>.
\<close>

definition lower_char :: "char \<Rightarrow> char" where
  "lower_char c =
     (if 65 \<le> (of_char c :: nat) \<and> (of_char c :: nat) \<le> 90
      then (case c of Char b0 b1 b2 b3 b4 b5 b6 b7 \<Rightarrow> Char b0 b1 b2 b3 b4 True b6 b7)
      else c)"

definition isASCII :: "string \<Rightarrow> bool" where
  "isASCII s = list_all (\<lambda>c. (of_char c :: nat) < 128) s"

definition ToLower :: "(string \<Rightarrow> string) \<Rightarrow> string \<Rightarrow> string" where
  "ToLower U s = (if isASCII s then map lower_char s else U s)"

definition HasPrefix_underscore :: "string \<Rightarrow> bool" where
  "HasPrefix_underscore k = (case k of [] \<Rightarrow> False | c # cs \<Rightarrow> c = CHR ''_'')"

text \<open>
  An entry is a Go map; \<open>range\<close> visits its pairs in an order that the runtime chooses.
  It is modelled by the list of its pairs in the order of the visit. The index expression
  \<open>entry[key]\<close> yields the empty string for a missing key.
\<close>

type_synonym entry = "(string \<times> string) list"

definition entry_get :: "entry \<Rightarrow> string \<Rightarrow> string" where
  "entry_get entry key = (case map_of entry key of None \<Rightarrow> [] | Some v \<Rightarrow> v)"

subsection \<open>\<open>services/journald.go\<close>\<close>

text \<open>The body of the loop (lines 22 to 54): the message and the map \<open>properties\<close>.\<close>

definition entry_field ::
  "(string \<Rightarrow> string) \<Rightarrow> string \<times> string \<Rightarrow> SyslogMessage \<times> (string \<rightharpoonup> string) \<Rightarrow>
   SyslogMessage \<times> (string \<rightharpoonup> string)"
where
  "entry_field U kv st =
     (case (kv, st) of
        ((key, v), (m, properties)) \<Rightarrow>
          (let k = ToLower U key in
           if k = ''syslog_identifier'' then (m, properties)
           else if k = ''_comm'' then (m\<lparr>Appname := v\<rparr>, properties)
           else if k = ''message'' then (m\<lparr>Message := v\<rparr>, properties)
           else if k = ''syslog_pid'' then (m, properties)
           else if k = ''_pid'' then (m\<lparr>Procid := v\<rparr>, properties)
           else if k = ''priority'' then
             (case Atoi v of
                (p, None) \<Rightarrow> (m\<lparr>Severity := p\<rparr>, properties)
              | (p, Some err) \<Rightarrow> (m, properties))
           else if k = ''syslog_facility'' then
             (case Atoi v of
                (f, None) \<Rightarrow> (m\<lparr>Facility := f\<rparr>, properties)
              | (f, Some err) \<Rightarrow> (m, properties))
           else if k = ''_hostname'' then (m\<lparr>Hostname := v\<rparr>, properties)
           else if k = ''_source_realtime_timestamp'' then
             (case ParseInt v of
                (t, None) \<Rightarrow> (m\<lparr>TimeReported := time_Unix0 (wrap64 (t * 1000))\<rparr>, properties)
              | (t, Some err) \<Rightarrow> (m, properties))
           else if HasPrefix_underscore k then (m, properties(k \<mapsto> v))
           else (m, properties)))"

text \<open>
  The function; \<open>now\<close> is the value of \<open>time.Now()\<close>. The types \<open>model.Priority\<close>,
  \<open>model.Facility\<close> and \<open>model.Severity\<close>, whose declarations are not among the sources, are
  taken to be \<open>int\<close>.
\<close>

definition EntryToSyslog :: "(string \<Rightarrow> string) \<Rightarrow> Time \<Rightarrow> entry \<Rightarrow> SyslogMessage" where
  "EntryToSyslog U now entry =
     (case fold (entry_field U) entry (SyslogMessage0, Map.empty) of
        (m0, properties) \<Rightarrow>
          (let m1 = (if length (Appname m0) = 0
                     then m0\<lparr>Appname := entry_get entry ''SYSLOG_IDENTIFIER''\<rparr> else m0);
               m2 = (if length (Procid m1) = 0
                     then m1\<lparr>Procid := entry_get entry ''SYSLOG_PID''\<rparr> else m1);
               m3 = m2\<lparr>TimeGenerated := now\<rparr>;
               m4 = (if IsZero (TimeReported m3)
                     then m3\<lparr>TimeReported := TimeGenerated m3\<rparr> else m3);
               m5 = m4\<lparr>Priority := wrap64 (Facility m4 * 8 + Severity m4)\<rparr>
           in m5\<lparr>Properties := [''journald'' \<mapsto> properties]\<rparr>))"

subsection \<open>\<open>server/journald.go\<close>\<close>

text \<open>
  The body of the loop (lines 22 to 56). The three numeric fields are assigned when the
  conversion returns an error (\<open>err != nil\<close>), with the value that it returns then.
\<close>

definition entry_field_server ::
  "(string \<Rightarrow> string) \<Rightarrow> string \<times> string \<Rightarrow> SyslogMessage \<times> (string \<rightharpoonup> string) \<Rightarrow>
   SyslogMessage \<times> (string \<rightharpoonup> string)"
where
  "entry_field_server U kv st =
     (case (kv, st) of
        ((key, v), (m, properties)) \<Rightarrow>
          (let k = ToLower U key in
           if k = ''syslog_identifier'' then (m, properties)
           else if k = ''_comm'' then (m\<lparr>Appname := v\<rparr>, properties)
           else if k = ''message'' then (m\<lparr>Message := v\<rparr>, properties)
           else if k = ''syslog_pid'' then (m, properties)
           else if k = ''_pid'' then (m\<lparr>Procid := v\<rparr>, properties)
           else if k = ''priority'' then
             (case Atoi v of
                (p, Some err) \<Rightarrow> (m\<lparr>Priority := p\<rparr>, properties)
              | (p, None) \<Rightarrow> (m, properties))
           else if k = ''syslog_facility'' then
             (case Atoi v of
                (f, Some err) \<Rightarrow> (m\<lparr>Facility := f\<rparr>, properties)
              | (f, None) \<Rightarrow> (m, properties))
           else if k = ''_hostname'' then (m\<lparr>Hostname := v\<rparr>, properties)
           else if k = ''_source_realtime_timestamp'' then
             (case ParseInt v of
                (t, Some err) \<Rightarrow> (m\<lparr>TimeReported := time_Unix0 (wrap64 (t * 1000))\<rparr>, properties)
              | (t, None) \<Rightarrow> (m, properties))
           else if HasPrefix_underscore k then (m, properties(k \<mapsto> v))
           else (m, properties)))"

definition EntryToSyslog_server :: "(string \<Rightarrow> string) \<Rightarrow> Time \<Rightarrow> entry \<Rightarrow> SyslogMessage" where
  "EntryToSyslog_server U now entry =
     (case fold (entry_field_server U) entry (SyslogMessage0, Map.empty) of
        (m0, properties) \<Rightarrow>
          (let m1 = (if length (Appname m0) = 0
                     then m0\<lparr>Appname := entry_get entry ''SYSLOG_IDENTIFIER''\<rparr> else m0);
               m2 = (if length (Procid m1) = 0
                     then m1\<lparr>Procid := entry_get entry ''SYSLOG_PID''\<rparr> else m1);
               m3 = m2\<lparr>TimeGenerated := now\<rparr>;
               m4 = (if IsZero (TimeReported m3)
                     then m3\<lparr>TimeReported := TimeGenerated m3\<rparr> else m3)
           in m4\<lparr>Properties := [''journald'' \<mapsto> properties]\<rparr>))"

section \<open>The supervisor: \<open>cmd/serve.go\<close>\<close>

text \<open>
  The closures of \<open>Serve\<close> that start and stop the forwarder and the services, the
  closure \<open>Reload\<close> and the branch of the main loop for a fatal error of the forwarder.

  A Kafka configuration, the parser configurations and the metrics configuration are
  opaque values. The store is the handle \<open>st\<close>; a context is a number, and the cancel
  function of a context is identified with that number.
\<close>

type_synonym KafkaConfig = string

record JournaldConfig =
  j_Enabled :: bool
  j_ConfID :: string
  j_FilterFunc :: string
  j_PartitionFunc :: string
  j_PartitionTmpl :: string
  j_TopicFunc :: string
  j_TopicTmpl :: string

record AuditConfig =
  a_Enabled :: bool

record GConfig =
  Kafka :: KafkaConfig
  Syslog :: "SyslogConfig list"
  Parsers :: "string list"
  Audit :: AuditConfig
  Journald :: JournaldConfig
  Metrics :: string

text \<open>The methods of a \<open>services.NetworkPlugin\<close> that the supervisor calls.\<close>

datatype plugin_call =
    SetConf "SyslogConfig list" "string list"
  | SetKafkaConf KafkaConfig
  | SetAuditConf AuditConfig
  | Start bool
  | Stop
  | Shutdown
  | WaitPluginShutdown

text \<open>
  The calls that the supervisor makes on its collaborators, in order:
  the operations on the store (\<open>store.NewStore\<close>, \<open>st.StoreAllSyslogConfigs\<close>, the cancel
  function \<open>gCancel\<close> of the context of the store, \<open>st.WaitFinished\<close>), \<open>metricStore.NewConf\<close>,
  \<open>context.WithCancel(shutdownCtx)\<close> with the number of the new context, the call of a
  cancel function, \<open>forwarder.Forward\<close> with its context, store and configuration,
  \<open>forwarder.WaitFinished\<close>, \<open>services.NewNetworkPlugin\<close> with the name of the service and
  the store, a method of the plugin of a service, the registration of a listener, a log
  record, \<open>time.Sleep\<close> in milliseconds, the operations on the local wait group, and a
  \<open>go\<close> statement with the calls of the goroutine that it starts.
\<close>

datatype sup_event =
    NewStore
  | StoreAllSyslogConfigs nat GConfig
  | GCancel
  | StoreWaitFinished nat
  | MetricsNewConf string
  | WithCancel nat
  | Cancel nat
  | Forward nat nat KafkaConfig
  | ForwarderWaitFinished
  | NewNetworkPlugin string nat
  | Plugin string plugin_call
  | RegisterTcpListener string
  | UnregisterTcpListener string
  | SLog string string
  | SleepFor nat
  | SWgAdd
  | SWgDone
  | SWgWait
  | GoRoutine "sup_event list"




subsection \<open>The forwarder\<close>




subsection \<open>The services\<close>












subsection \<open>\<open>Reload\<close>\<close>



subsection \<open>A fatal error of the forwarder\<close>


subsection \<open>Projections of the calls of the supervisor\<close>

text \<open>All calls, with those of the goroutines started.\<close>

fun all_calls :: "sup_event \<Rightarrow> sup_event list" where
  "all_calls (GoRoutine evs) = GoRoutine evs # concat (map all_calls evs)"
| "all_calls e = [e]"

definition calls_of :: "sup_event list \<Rightarrow> sup_event list" where
  "calls_of evs = concat (map all_calls evs)"

text \<open>The operations on the store itself: creation, configurations, cancellation, close.\<close>

fun is_store_op :: "sup_event \<Rightarrow> bool" where
  "is_store_op NewStore = True"
| "is_store_op (StoreAllSyslogConfigs h conf) = True"
| "is_store_op GCancel = True"
| "is_store_op (StoreWaitFinished h) = True"
| "is_store_op e = False"

definition store_ops :: "sup_event list \<Rightarrow> sup_event list" where
  "store_ops evs = filter is_store_op (calls_of evs)"

text \<open>The stores that are handed to the forwarder and to the plugins.\<close>

fun store_handed :: "sup_event \<Rightarrow> nat list" where
  "store_handed (Forward ctx h conf) = [h]"
| "store_handed (NewNetworkPlugin name h) = [h]"
| "store_handed e = []"

definition stores_handed :: "sup_event list \<Rightarrow> nat list" where
  "stores_handed evs = concat (map store_handed (calls_of evs))"

text \<open>The calls that concern the forwarder, outside goroutines.\<close>

fun is_forwarder_call :: "sup_event \<Rightarrow> bool" where
  "is_forwarder_call (WithCancel ctx) = True"
| "is_forwarder_call (Cancel ctx) = True"
| "is_forwarder_call (Forward ctx h conf) = True"
| "is_forwarder_call ForwarderWaitFinished = True"
| "is_forwarder_call e = False"

definition forwarder_calls :: "sup_event list \<Rightarrow> sup_event list" where
  "forwarder_calls evs = filter is_forwarder_call evs"

text \<open>The goroutines started: the calls of each.\<close>

fun goroutine_body :: "sup_event \<Rightarrow> sup_event list list" where
  "goroutine_body (GoRoutine evs) = [evs]"
| "goroutine_body e = []"

definition goroutines :: "sup_event list \<Rightarrow> sup_event list list" where
  "goroutines evs = concat (map goroutine_body evs)"

section \<open>Concrete inputs\<close>

text \<open>
  A filter environment, a set of collaborators and messages on which the embedded
  functions are evaluated: the topic is the application name, the partition key is the
  host name, and the filter drops the host \<open>blocked\<close>, rejects the host \<open>rejected\<close>, fails
  on the host \<open>broken\<close>, passes the host \<open>empty\<close> with no message and passes every other
  message unchanged. Only the configuration \<open>X\<close> is stored; a message with an empty text
  cannot be turned into a Kafka message; the error \<open>auth\<close> is the fatal one.
\<close>

definition ex_env :: FilterEnvironment where
  "ex_env =
     \<lparr>env_Topic = (\<lambda>f. case f of None \<Rightarrow> ([], [''no message'']) | Some m \<Rightarrow> (Appname m, [])),
      env_PartitionKey =
        (\<lambda>f. case f of None \<Rightarrow> ([], [''no message'']) | Some m \<Rightarrow> (Hostname m, [])),
      env_FilterMessage =
        (\<lambda>f. case f of
           None \<Rightarrow> (None, ERROR, Some ''no message'')
         | Some m \<Rightarrow>
             if Hostname m = ''blocked'' then (None, DROPPED, None)
             else if Hostname m = ''rejected'' then (None, REJECTED, None)
             else if Hostname m = ''broken'' then (None, ERROR, Some ''filter error'')
             else if Hostname m = ''empty'' then (None, PASS, None)
             else (Some m, PASS, None))\<rparr>"

definition ex_config :: SyslogConfig where
  "ex_config =
     \<lparr>ConfID = ''X'', Format = ''rfc5424'', DontParseSD = False, FilterFunc = ''f'',
      TopicFunc = ''t'', TopicTmpl = [], PartitionFunc = ''p'', PartitionTmpl = []\<rparr>"

definition ex_world :: collaborators where
  "ex_world =
     \<lparr>GetSyslogConfig = (\<lambda>cid. if cid = ''X'' then Inr ex_config else Inl ''not found''),
      NewFilterEnvironment = (\<lambda>ff tf tt pf pt. ex_env),
      ToKafkaMessage =
        (\<lambda>nmsg pk tp. case Fields nmsg of
           None \<Rightarrow> Inl ''no message''
         | Some m \<Rightarrow>
             if Message m = [] then Inl ''cannot encode''
             else Inr \<lparr>Topic = tp, Key = pk, Value = Message m, Metadata = []\<rparr>),
      IsFatalKafkaError = (\<lambda>e. e = ''auth'')\<rparr>"

definition ex_msg :: "string \<Rightarrow> string \<Rightarrow> string \<Rightarrow> string \<Rightarrow> string \<Rightarrow> TcpUdpParsedMessage" where
  "ex_msg uid cid host app txt =
     \<lparr>Parsed = \<lparr>Fields = Some (SyslogMessage0\<lparr>Hostname := host, Appname := app, Message := txt\<rparr>),
                Client = ''10.0.0.1'', LocalPort = 514, UnixSocketPath = []\<rparr>,
      Uid = uid, ConfId = cid\<rparr>"

definition ex_kafka :: "string \<Rightarrow> string \<Rightarrow> string \<Rightarrow> string \<Rightarrow> ProducerMessage" where
  "ex_kafka uid host app txt = \<lparr>Topic = app, Key = host, Value = txt, Metadata = uid\<rparr>"

text \<open>
  A TCP handler whose only parser, for the format \<open>rfc5424\<close>, accepts the texts that start
  with \<open><\<close>; a generator; two raw messages, of which the second cannot be parsed.
\<close>

definition ex_parser :: parser where
  "ex_parser txt dont =
     (case txt of
        [] \<Rightarrow> Inl ''empty message''
      | c # cs \<Rightarrow>
          if c = CHR ''<'' then Inr (Some (SyslogMessage0\<lparr>Message := txt\<rparr>))
          else Inl ''no priority'')"

definition ex_handler :: "bool \<Rightarrow> tcp_handler" where
  "ex_handler metrics =
     \<lparr>h_metrics = metrics,
      h_GetParser = (\<lambda>format. if format = ''rfc5424'' then Some ex_parser else None)\<rparr>"

definition ex_gen :: "nat \<Rightarrow> string" where
  "ex_gen k = (if k = 0 then ''id0'' else if k = 1 then ''id1'' else ''id2'')"

definition ex_raw :: "string \<Rightarrow> RawMessage" where
  "ex_raw txt =
     \<lparr>raw_Client = ''10.0.0.1'', raw_LocalPort = 514, raw_UnixSocketPath = [],
      raw_Message = txt\<rparr>"





section \<open>Theorems about \<open>TcpSplit\<close>\<close>

text \<open>
  Claim C10 says that \<open>TcpSplit\<close> never panics, in particular on octet-counting input
  whose length field is negative, such as \<open>"-5 abc"\<close>. At that input the code does
  panic: \<open>strconv.Atoi\<close> accepts the sign, \<open>datalen = -5\<close>, \<open>advance = -2\<close>, the test
  \<open>len(data) >= advance\<close> holds and the slice expression \<open>trimmed_data[3:-2]\<close> is out of
  range, whatever the capacity of the buffer and whatever \<open>atEOF\<close> is.
\<close>

theorem TcpSplit_negative_length_panics:
  "TcpSplit dcap ''-5 abc'' atEOF = Inl SliceBoundsOutOfRange"
  by (simp add: TcpSplit_def TrimLeft_def in_cutset_def SP_def CR_def LF_def
      IndexAny_sp_lf_def slice_def Trim_def Atoi_def ParseInt_def digit_val_def
      wrap64_def MaxInt64_def MinInt64_def Let_def)

section \<open>Theorems about the forwarder\<close>

subsection \<open>Projections of traces\<close>

lemma terminal_uids_simps [simp]:
  "terminal_uids [] = []"
  "terminal_uids (e # evs) = terminal_uid e @ terminal_uids evs"
  "terminal_uids (evs @ evs') = terminal_uids evs @ terminal_uids evs'"
  by (simp_all add: terminal_uids_def)

lemma sends_simps [simp]:
  "sends [] = []"
  "sends (e # evs) = sent_message e @ sends evs"
  "sends (evs @ evs') = sends evs @ sends evs'"
  by (simp_all add: sends_def)

lemma store_calls_simps [simp]:
  "store_calls [] = []"
  "store_calls (e # evs) = (if is_terminal e then e # store_calls evs else store_calls evs)"
  "store_calls (evs @ evs') = store_calls evs @ store_calls evs'"
  by (simp_all add: store_calls_def)

lemma printed_simps [simp]:
  "printed [] = []"
  "printed (e # evs) = printed_line e @ printed evs"
  "printed (evs @ evs') = printed evs @ printed evs'"
  by (simp_all add: printed_def)

lemma acked_simps [simp]:
  "acked [] = []"
  "acked (e # evs) = acked_uid e @ acked evs"
  "acked (evs @ evs') = acked evs @ acked evs'"
  by (simp_all add: acked_def)

lemma nacked_simps [simp]:
  "nacked [] = []"
  "nacked (e # evs) = nacked_uid e @ nacked evs"
  "nacked (evs @ evs') = nacked evs @ nacked evs'"
  by (simp_all add: nacked_def)

lemma closes_simps [simp]:
  "closes [] = 0"
  "closes (e # evs) = (if e = CloseErrorChan then Suc (closes evs) else closes evs)"
  "closes (evs @ evs') = closes evs + closes evs'"
  by (simp_all add: closes_def)

lemma logs_project_to_nothing [simp]:
  "terminal_uids (map (\<lambda>e. Log l t) errs) = []"
  "sends (map (\<lambda>e. Log l t) errs) = []"
  "store_calls (map (\<lambda>e. Log l t) errs) = []"
  "printed (map (\<lambda>e. Log l t) errs) = []"
  by (induction errs) simp_all

lemma accounted_Nil: "accounted [] = {#}"
  by (simp add: accounted_def)

lemma accounted_append: "accounted (evs @ evs') = accounted evs + accounted evs'"
  by (simp add: accounted_def)

lemmas ex_defs =
  ex_env_def ex_config_def ex_world_def ex_msg_def ex_kafka_def SyslogMessage0_def

lemmas forwarder_defs =
  getAndSendMessages_def handle_message_def lookup_env_def route_message_def
  filter_and_send_def send_message_def Let_def


subsection \<open>One iteration of \<open>getAndSendMessages\<close> accounts for its message once\<close>

lemma send_message_accounted:
  "accounted (send_message W producer m tmsg pk tp) = {#Uid m#}"
  by (simp add: accounted_def send_message_def Let_def split: sum.splits option.splits)

lemma filter_and_send_accounted:
  "accounted (filter_and_send W producer env m pk tp) = {#Uid m#}"
proof -
  obtain tmsg r err where f: "env_FilterMessage env (Fields (Parsed m)) = (tmsg, r, err)"
    by (cases "env_FilterMessage env (Fields (Parsed m))") auto
  show ?thesis
  proof (cases r)
    case PASS
    show ?thesis
    proof (cases tmsg)
      case None
      with f PASS show ?thesis
        by (simp add: filter_and_send_def accounted_def)
    next
      case (Some t)
      have "accounted (filter_and_send W producer env m pk tp) =
            accounted (send_message W producer m tmsg pk tp)"
        using f PASS Some by (simp add: filter_and_send_def accounted_def)
      then show ?thesis
        by (simp add: send_message_accounted)
    qed
  qed (use f in \<open>simp_all add: filter_and_send_def accounted_def\<close>)
qed

lemma route_message_accounted:
  "accounted (route_message W producer env m) = {#Uid m#}"
proof -
  obtain topic errs where t: "env_Topic env (Fields (Parsed m)) = (topic, errs)"
    by (cases "env_Topic env (Fields (Parsed m))")
  obtain pk errs' where p: "env_PartitionKey env (Fields (Parsed m)) = (pk, errs')"
    by (cases "env_PartitionKey env (Fields (Parsed m))")
  show ?thesis
  proof (cases "topic = [] \<or> pk = []")
    case True
    then show ?thesis
      using t p by (auto simp add: route_message_def accounted_def)
  next
    case False
    then have "accounted (route_message W producer env m) =
               accounted (filter_and_send W producer env m pk topic)"
      using t p by (simp add: route_message_def accounted_def)
    then show ?thesis
      by (simp add: filter_and_send_accounted)
  qed
qed

lemma handle_message_accounted:
  "accounted (fst (handle_message W producer envs m)) = {#Uid m#}"
  by (simp add: handle_message_def lookup_env_def Let_def route_message_accounted
      accounted_def [of "[_, _]"] split: sum.splits option.splits)

lemma run_outputs_accounted:
  "accounted (concat (run_outputs W producer envs ms)) = image_mset Uid (mset ms)"
proof (induction ms arbitrary: envs)
  case Nil
  then show ?case
    by (simp add: accounted_Nil)
next
  case (Cons m ms)
  obtain evs envs' where h: "handle_message W producer envs m = (evs, envs')"
    by (cases "handle_message W producer envs m")
  have "accounted evs = {#Uid m#}"
    using handle_message_accounted [of W producer envs m] h by simp
  then show ?case
    using Cons.IH [of envs'] h by (simp add: accounted_append)
qed

lemma run_outputs_length: "length (run_outputs W producer envs ms) = length ms"
  by (induction ms arbitrary: envs) (simp_all split: prod.splits)

lemma run_outputs_nth_accounted:
  "i < length ms \<Longrightarrow> accounted (run_outputs W producer envs ms ! i) = {#Uid (ms ! i)#}"
proof (induction ms arbitrary: envs i)
  case Nil
  then show ?case by simp
next
  case (Cons m ms)
  obtain evs envs' where h: "handle_message W producer envs m = (evs, envs')"
    by (cases "handle_message W producer envs m")
  show ?case
  proof (cases i)
    case 0
    then show ?thesis
      using handle_message_accounted [of W producer envs m] h by simp
  next
    case (Suc j)
    then show ?thesis
      using Cons.IH [of j envs'] Cons.prems h by simp
  qed
qed

subsection \<open>The listener settles every response once\<close>

lemma on_success_projections [simp]:
  "acked (on_success s) = [Metadata s]"
  "nacked (on_success s) = []"
  "closes (on_success s) = 0"
  "terminal_uids (on_success s) = [Metadata s]"
  by (simp_all add: on_success_def)

lemma on_failure_projections [simp]:
  "acked (fst (on_failure W once f)) = []"
  "nacked (fst (on_failure W once f)) = [Metadata (Msg f)]"
  "terminal_uids (fst (on_failure W once f)) = [Metadata (Msg f)]"
  "closes (fst (on_failure W once f)) = (if IsFatalKafkaError W (Err f) \<and> \<not> once then 1 else 0)"
  "snd (on_failure W once f) = (once \<or> IsFatalKafkaError W (Err f))"
  by (simp_all add: on_failure_def)

lemma kafka_select_None:
  "kafka_select sched sc fc = None \<Longrightarrow> chan_list sc = [] \<and> chan_list fc = []"
  by (cases sc; cases fc) simp_all

lemma kafka_select_Some:
  assumes "kafka_select sched sc fc = Some (r, sc', fc')"
  shows "(\<exists>s. r = RecvSucc s \<and> chan_list sc = s # chan_list sc' \<and> chan_list fc' = chan_list fc) \<or>
         (r = SuccClosed \<and> chan_list sc = [] \<and> chan_list sc' = [] \<and> chan_list fc' = chan_list fc) \<or>
         (\<exists>f. r = RecvFail f \<and> chan_list fc = f # chan_list fc' \<and> chan_list sc' = chan_list sc) \<or>
         (r = FailClosed \<and> chan_list fc = [] \<and> chan_list fc' = [] \<and> chan_list sc' = chan_list sc)"
  using assms
  by (cases sc; cases fc)
    (auto simp add: read_succ_def read_fail_def split: list.splits if_splits)

lemma listen_loop_acked:
  "acked (listen_loop W sched once sc fc) = map Metadata (chan_list sc)"
proof (induction W sched once sc fc rule: listen_loop.induct)
  case (1 W sched once sc fc)
  show ?case
  proof (cases "kafka_select sched sc fc")
    case None
    then show ?thesis
      using kafka_select_None [OF None] by (subst listen_loop.simps) simp
  next
    case (Some x)
    obtain r sc' fc' where x: "x = (r, sc', fc')"
      by (cases x)
    note sel = Some [unfolded x]
    show ?thesis
      using kafka_select_Some [OF sel] "1.IH" [OF sel refl refl]
      by (subst listen_loop.simps) (auto simp add: sel on_receive_def)
  qed
qed

lemma listen_loop_nacked:
  "nacked (listen_loop W sched once sc fc) = map (\<lambda>f. Metadata (Msg f)) (chan_list fc)"
proof (induction W sched once sc fc rule: listen_loop.induct)
  case (1 W sched once sc fc)
  show ?case
  proof (cases "kafka_select sched sc fc")
    case None
    then show ?thesis
      using kafka_select_None [OF None] by (subst listen_loop.simps) simp
  next
    case (Some x)
    obtain r sc' fc' where x: "x = (r, sc', fc')"
      by (cases x)
    note sel = Some [unfolded x]
    show ?thesis
      using kafka_select_Some [OF sel] "1.IH" [OF sel refl refl]
      by (subst listen_loop.simps) (auto simp add: sel on_receive_def)
  qed
qed

lemma listen_loop_terminal:
  "mset (terminal_uids (listen_loop W sched once sc fc)) =
   image_mset Metadata (mset (chan_list sc)) +
   image_mset (\<lambda>f. Metadata (Msg f)) (mset (chan_list fc))"
proof (induction W sched once sc fc rule: listen_loop.induct)
  case (1 W sched once sc fc)
  show ?case
  proof (cases "kafka_select sched sc fc")
    case None
    then show ?thesis
      using kafka_select_None [OF None] by (subst listen_loop.simps) simp
  next
    case (Some x)
    obtain r sc' fc' where x: "x = (r, sc', fc')"
      by (cases x)
    note sel = Some [unfolded x]
    show ?thesis
      using kafka_select_Some [OF sel] "1.IH" [OF sel refl refl]
      by (subst listen_loop.simps) (auto simp add: sel on_receive_def)
  qed
qed



subsection \<open>Claim C1: exactly one terminal action for every message\<close>

text \<open>
  Claim C1. Every iteration of the loop of \<open>getAndSendMessages\<close> accounts for its
  message exactly once: it makes one terminal store call (\<open>ACK\<close>, \<open>NACK\<close> or \<open>PermError\<close>)
  on the uid of the message and sends nothing, or it makes no store call and hands one
  Kafka message carrying that uid to the producer. \<open>listenKafkaResponses\<close> makes one
  \<open>ACK\<close> for every success that it receives and one \<open>NACK\<close> for every error, and no other
  store call. Hence, when the producer answers every message handed to it once (on the
  successes or on the errors), the terminal calls of the two goroutines together are
  exactly one for each message received from \<open>Outputs\<close>.
\<close>

theorem exactly_one_terminal_action:
  assumes "image_mset Metadata (mset succChan) +
           image_mset (\<lambda>f. Metadata (Msg f)) (mset failChan) =
           image_mset Metadata (mset (sends (getAndSendMessages W producer messages)))"
  shows "(\<forall>i < length messages.
            accounted (run_outputs W producer Map.empty messages ! i) = {#Uid (messages ! i)#}) \<and>
         acked (listenKafkaResponses W sched succChan failChan) = map Metadata succChan \<and>
         nacked (listenKafkaResponses W sched succChan failChan) =
           map (\<lambda>f. Metadata (Msg f)) failChan \<and>
         length (store_calls (listenKafkaResponses W sched succChan failChan)) =
           length succChan + length failChan \<and>
         mset (terminal_uids (getAndSendMessages W producer messages)) +
         mset (terminal_uids (listenKafkaResponses W sched succChan failChan)) =
           image_mset Uid (mset messages)"
proof -
  let ?S = "getAndSendMessages W producer messages"
  let ?L = "listenKafkaResponses W sched succChan failChan"
  have tail: "terminal_uids ((case producer of None \<Rightarrow> [] | Some p \<Rightarrow> [AsyncClose]) @ [WgDone]) = []"
     "sends ((case producer of None \<Rightarrow> [] | Some p \<Rightarrow> [AsyncClose]) @ [WgDone]) = []"
    by (simp_all split: option.splits)
  have "accounted ?S = accounted (concat (run_outputs W producer Map.empty messages))"
    using tail by (simp add: getAndSendMessages_def accounted_def)
  then have S: "mset (terminal_uids ?S) + image_mset Metadata (mset (sends ?S)) =
                image_mset Uid (mset messages)"
    by (simp add: run_outputs_accounted accounted_def [of ?S])
  have L: "mset (terminal_uids ?L) =
           image_mset Metadata (mset succChan) +
           image_mset (\<lambda>f. Metadata (Msg f)) (mset failChan)"
    by (simp add: listenKafkaResponses_def listen_loop_terminal)
  have calls: "length (store_calls evs) = length (terminal_uids evs)" for evs
  proof (induction evs)
    case Nil
    then show ?case by simp
  next
    case (Cons e evs)
    then show ?case by (cases e) simp_all
  qed
  have "length (terminal_uids ?L) = length succChan + length failChan"
    using arg_cong [OF L, of size] by simp
  then have n: "length (store_calls ?L) = length succChan + length failChan"
    by (simp add: calls)
  have each: "\<forall>i < length messages.
      accounted (run_outputs W producer Map.empty messages ! i) = {#Uid (messages ! i)#}"
    by (simp add: run_outputs_nth_accounted)
  have a: "acked ?L = map Metadata succChan"
    by (simp add: listenKafkaResponses_def listen_loop_acked)
  have b: "nacked ?L = map (\<lambda>f. Metadata (Msg f)) failChan"
    by (simp add: listenKafkaResponses_def listen_loop_nacked)
  have "mset (terminal_uids ?S) + mset (terminal_uids ?L) = image_mset Uid (mset messages)"
    using S L assms by simp
  with each a b n show ?thesis
    by blast
qed

text \<open>
  A session with a producer: \<open>m1\<close> passes and is sent, \<open>m2\<close> is dropped by the filter,
  \<open>m3\<close> has no stored configuration; the broker then reports an error for \<open>m1\<close>.
\<close>

theorem exactly_one_terminal_action_witness:
  "image_mset Metadata (mset []) +
   image_mset (\<lambda>f. Metadata (Msg f)) (mset [\<lparr>Msg = ex_kafka ''m1'' ''h1'' ''app'' ''hello'', Err = ''timeout''\<rparr>]) =
   image_mset Metadata (mset (sends (getAndSendMessages ex_world (Some 0)
     [ex_msg ''m1'' ''X'' ''h1'' ''app'' ''hello'', ex_msg ''m2'' ''X'' ''blocked'' ''app'' ''x'',
      ex_msg ''m3'' ''Y'' ''h3'' ''app'' ''y'']))) \<and>
   terminal_uids (getAndSendMessages ex_world (Some 0)
     [ex_msg ''m1'' ''X'' ''h1'' ''app'' ''hello'', ex_msg ''m2'' ''X'' ''blocked'' ''app'' ''x'',
      ex_msg ''m3'' ''Y'' ''h3'' ''app'' ''y'']) = [''m2'', ''m3''] \<and>
   mset (terminal_uids (getAndSendMessages ex_world (Some 0)
     [ex_msg ''m1'' ''X'' ''h1'' ''app'' ''hello'', ex_msg ''m2'' ''X'' ''blocked'' ''app'' ''x'',
      ex_msg ''m3'' ''Y'' ''h3'' ''app'' ''y''])) +
   mset (terminal_uids (listenKafkaResponses ex_world []
     [] [\<lparr>Msg = ex_kafka ''m1'' ''h1'' ''app'' ''hello'', Err = ''timeout''\<rparr>])) =
   {#''m1'', ''m2'', ''m3''#}"
proof -
  let ?ms = "[ex_msg ''m1'' ''X'' ''h1'' ''app'' ''hello'', ex_msg ''m2'' ''X'' ''blocked'' ''app'' ''x'',
      ex_msg ''m3'' ''Y'' ''h3'' ''app'' ''y'']"
  let ?fs = "[\<lparr>Msg = ex_kafka ''m1'' ''h1'' ''app'' ''hello'', Err = ''timeout''\<rparr>]"
  have evs: "getAndSendMessages ex_world (Some 0) ?ms =
     [CounterInc ''MessageFilteringCounter'' [''passing'', ''10.0.0.1''],
      ProducerInput (ex_kafka ''m1'' ''h1'' ''app'' ''hello''),
      ACK ''m2'',
      CounterInc ''MessageFilteringCounter'' [''dropped'', ''10.0.0.1''],
      Log ''warn'' ''Could not find the stored configuration for a message'',
      PermError ''m3'', AsyncClose, WgDone]"
    by (simp add: ex_defs forwarder_defs)
  have h: "image_mset Metadata (mset []) + image_mset (\<lambda>f. Metadata (Msg f)) (mset ?fs) =
     image_mset Metadata (mset (sends (getAndSendMessages ex_world (Some 0) ?ms)))"
    by (simp add: evs ex_kafka_def)
  have uids: "image_mset Uid (mset ?ms) = {#''m1'', ''m2'', ''m3''#}"
    by (simp add: ex_msg_def)
  show ?thesis
    using exactly_one_terminal_action [OF h, of "[]"] h uids
    by (simp add: evs)
qed

subsection \<open>Claim C2: the filter verdict decides the store call\<close>

text \<open>
  Claim C2. For a message whose configuration is resolved, an empty topic or an empty
  partition key gives \<open>PermError\<close>; otherwise the filter is evaluated, and the verdict
  DROPPED gives \<open>ACK\<close>, the verdict REJECTED gives \<open>NACK\<close> and the verdict ERROR gives
  \<open>PermError\<close>. In each of these cases the call is the only store call of the iteration
  and nothing is sent to the broker.
\<close>

theorem filter_verdict_decides_store_call:
  assumes "lookup_env W envs message = Inr (env, envs')"
    and "env_Topic env (Fields (Parsed message)) = (topic, errs)"
    and "env_PartitionKey env (Fields (Parsed message)) = (partitionKey, errs')"
    and "env_FilterMessage env (Fields (Parsed message)) = (tmsg, verdict, err)"
  shows "(topic = [] \<or> partitionKey = [] \<longrightarrow>
            store_calls (fst (handle_message W producer envs message)) = [PermError (Uid message)] \<and>
            sends (fst (handle_message W producer envs message)) = []) \<and>
         (topic \<noteq> [] \<and> partitionKey \<noteq> [] \<and> verdict = DROPPED \<longrightarrow>
            store_calls (fst (handle_message W producer envs message)) = [ACK (Uid message)] \<and>
            sends (fst (handle_message W producer envs message)) = [] \<and>
            printed (fst (handle_message W producer envs message)) = []) \<and>
         (topic \<noteq> [] \<and> partitionKey \<noteq> [] \<and> verdict = REJECTED \<longrightarrow>
            store_calls (fst (handle_message W producer envs message)) = [NACK (Uid message)] \<and>
            sends (fst (handle_message W producer envs message)) = []) \<and>
         (topic \<noteq> [] \<and> partitionKey \<noteq> [] \<and> verdict = ERROR \<longrightarrow>
            store_calls (fst (handle_message W producer envs message)) = [PermError (Uid message)] \<and>
            sends (fst (handle_message W producer envs message)) = [])"
  using assms
  by (auto simp add: handle_message_def route_message_def filter_and_send_def)

theorem filter_verdict_decides_store_call_witness:
  "store_calls (fst (handle_message ex_world (Some 0) Map.empty
     (ex_msg ''m1'' ''X'' ''blocked'' ''app'' ''t''))) = [ACK ''m1''] \<and>
   store_calls (fst (handle_message ex_world (Some 0) Map.empty
     (ex_msg ''m2'' ''X'' ''rejected'' ''app'' ''t''))) = [NACK ''m2''] \<and>
   store_calls (fst (handle_message ex_world (Some 0) Map.empty
     (ex_msg ''m3'' ''X'' ''broken'' ''app'' ''t''))) = [PermError ''m3''] \<and>
   store_calls (fst (handle_message ex_world (Some 0) Map.empty
     (ex_msg ''m4'' ''X'' ''h4'' [] ''t''))) = [PermError ''m4''] \<and>
   store_calls (fst (handle_message ex_world (Some 0) Map.empty
     (ex_msg ''m5'' ''X'' [] ''app'' ''t''))) = [PermError ''m5'']"
proof -
  have env: "lookup_env ex_world Map.empty (ex_msg u ''X'' h a t) =
             Inr (ex_env, [''X'' \<mapsto> ex_env])" for u h a t
    by (simp add: lookup_env_def ex_world_def ex_msg_def)
  have tp: "env_Topic ex_env (Fields (Parsed (ex_msg u ''X'' h a t))) = (a, [])" for u h a t
    by (simp add: ex_env_def ex_msg_def SyslogMessage0_def)
  have pk: "env_PartitionKey ex_env (Fields (Parsed (ex_msg u ''X'' h a t))) = (h, [])"
    for u h a t
    by (simp add: ex_env_def ex_msg_def SyslogMessage0_def)
  have f1: "env_FilterMessage ex_env (Fields (Parsed (ex_msg ''m1'' ''X'' ''blocked'' ''app'' ''t''))) =
            (None, DROPPED, None)"
    by (simp add: ex_env_def ex_msg_def SyslogMessage0_def)
  have f2: "env_FilterMessage ex_env (Fields (Parsed (ex_msg ''m2'' ''X'' ''rejected'' ''app'' ''t''))) =
            (None, REJECTED, None)"
    by (simp add: ex_env_def ex_msg_def SyslogMessage0_def)
  have f3: "env_FilterMessage ex_env (Fields (Parsed (ex_msg ''m3'' ''X'' ''broken'' ''app'' ''t''))) =
            (None, ERROR, Some ''filter error'')"
    by (simp add: ex_env_def ex_msg_def SyslogMessage0_def)
  obtain t4 v4 e4 where f4:
    "env_FilterMessage ex_env (Fields (Parsed (ex_msg ''m4'' ''X'' ''h4'' [] ''t''))) = (t4, v4, e4)"
    by (cases "env_FilterMessage ex_env (Fields (Parsed (ex_msg ''m4'' ''X'' ''h4'' [] ''t'')))")
  obtain t5 v5 e5 where f5:
    "env_FilterMessage ex_env (Fields (Parsed (ex_msg ''m5'' ''X'' [] ''app'' ''t''))) = (t5, v5, e5)"
    by (cases "env_FilterMessage ex_env (Fields (Parsed (ex_msg ''m5'' ''X'' [] ''app'' ''t'')))")
  have u: "Uid (ex_msg u c h a t) = u" for u c h a t
    by (simp add: ex_msg_def)
  show ?thesis
    using filter_verdict_decides_store_call [OF env tp pk f1, of "Some 0"]
      filter_verdict_decides_store_call [OF env tp pk f2, of "Some 0"]
      filter_verdict_decides_store_call [OF env tp pk f3, of "Some 0"]
      filter_verdict_decides_store_call [OF env tp pk f4, of "Some 0"]
      filter_verdict_decides_store_call [OF env tp pk f5, of "Some 0"]
    by (simp add: u)
qed


subsection \<open>Claim C5: test mode\<close>

text \<open>
  Claim C5 as stated: in test mode every message that passes the filter is printed and
  acknowledged. The code prints only after two further tests. The message \<open>m1\<close> passes the
  filter with a transformed message, but \<open>ToKafkaMessage\<close> returns an error for it: nothing
  is printed and the store call is \<open>PermError\<close>. The message \<open>m2\<close> passes the filter with
  no transformed message (\<open>tmsg == nil\<close>): it is acknowledged and nothing is printed.
\<close>

theorem test_mode_pass_not_printed_counterexample:
  "fst (snd (env_FilterMessage ex_env (Fields (Parsed (ex_msg ''m1'' ''X'' ''h1'' ''app'' []))))) = PASS \<and>
   printed (fst (handle_message ex_world None Map.empty (ex_msg ''m1'' ''X'' ''h1'' ''app'' []))) = [] \<and>
   store_calls (fst (handle_message ex_world None Map.empty (ex_msg ''m1'' ''X'' ''h1'' ''app'' []))) =
     [PermError ''m1''] \<and>
   fst (snd (env_FilterMessage ex_env (Fields (Parsed (ex_msg ''m2'' ''X'' ''empty'' ''app'' ''t''))))) = PASS \<and>
   printed (fst (handle_message ex_world None Map.empty (ex_msg ''m2'' ''X'' ''empty'' ''app'' ''t''))) = [] \<and>
   store_calls (fst (handle_message ex_world None Map.empty (ex_msg ''m2'' ''X'' ''empty'' ''app'' ''t''))) =
     [ACK ''m2'']"
  by (simp add: ex_defs forwarder_defs)

text \<open>
  Claim C5, amended. In test mode \<open>doForward\<close> does not call \<open>getProducer\<close> and does not
  start \<open>listenKafkaResponses\<close>: it only starts \<open>getAndSendMessages\<close> with the nil
  producer. With the nil producer, for every message that passes the filter (its
  configuration is resolved, its topic and partition key are not empty and the verdict
  is PASS):

  \<^item> if the filter returns a transformed message and \<open>ToKafkaMessage\<close> succeeds, the
    message is printed (its value, then an empty line) and then acknowledged, and it is
    not sent; these are the last effects of the iteration;
  \<^item> if the filter returns no transformed message (\<open>tmsg == nil\<close>), the message is
    acknowledged and nothing is printed;
  \<^item> if \<open>ToKafkaMessage\<close> returns an error, the store call is \<open>PermError\<close> and nothing is
    printed.
\<close>

theorem test_mode_prints_and_acks:
  assumes "lookup_env W envs message = Inr (env, envs')"
    and "env_Topic env (Fields (Parsed message)) = (topic, errs)"
    and "env_PartitionKey env (Fields (Parsed message)) = (partitionKey, errs')"
    and "topic \<noteq> []" and "partitionKey \<noteq> []"
    and "env_FilterMessage env (Fields (Parsed message)) = (tmsg, PASS, err)"
  shows "doForward True attempts = Some [WgAdd, Go (GetAndSendMessages None), WgDone] \<and>
         (\<forall>t kafkaMsg.
            tmsg = Some t \<and>
            ToKafkaMessage W
              \<lparr>Fields = Some t, Client = Client (Parsed message),
               LocalPort = LocalPort (Parsed message),
               UnixSocketPath = UnixSocketPath (Parsed message)\<rparr> partitionKey topic =
              Inr kafkaMsg \<longrightarrow>
            fst (handle_message W None envs message) =
              map (\<lambda>e. Log ''info'' ''Error calculating topic'') errs @
              map (\<lambda>e. Log ''info'' ''Error calculating the partition key'') errs' @
              [CounterInc ''MessageFilteringCounter'' [''passing'', Client (Parsed message)],
               Log ''info'' ''Message'', Println (Value kafkaMsg), Println [],
               ACK (Uid message)] \<and>
            printed (fst (handle_message W None envs message)) = [Value kafkaMsg, []] \<and>
            store_calls (fst (handle_message W None envs message)) = [ACK (Uid message)] \<and>
            sends (fst (handle_message W None envs message)) = []) \<and>
         (tmsg = None \<longrightarrow>
            fst (handle_message W None envs message) =
              map (\<lambda>e. Log ''info'' ''Error calculating topic'') errs @
              map (\<lambda>e. Log ''info'' ''Error calculating the partition key'') errs' @
              [CounterInc ''MessageFilteringCounter'' [''passing'', Client (Parsed message)],
               ACK (Uid message)] \<and>
            printed (fst (handle_message W None envs message)) = [] \<and>
            store_calls (fst (handle_message W None envs message)) = [ACK (Uid message)] \<and>
            sends (fst (handle_message W None envs message)) = []) \<and>
         (\<forall>t e.
            tmsg = Some t \<and>
            ToKafkaMessage W
              \<lparr>Fields = Some t, Client = Client (Parsed message),
               LocalPort = LocalPort (Parsed message),
               UnixSocketPath = UnixSocketPath (Parsed message)\<rparr> partitionKey topic =
              Inl e \<longrightarrow>
            fst (handle_message W None envs message) =
              map (\<lambda>e. Log ''info'' ''Error calculating topic'') errs @
              map (\<lambda>e. Log ''info'' ''Error calculating the partition key'') errs' @
              [CounterInc ''MessageFilteringCounter'' [''passing'', Client (Parsed message)],
               Log ''warn'' ''Error generating Kafka message'', PermError (Uid message)] \<and>
            printed (fst (handle_message W None envs message)) = [] \<and>
            store_calls (fst (handle_message W None envs message)) = [PermError (Uid message)] \<and>
            sends (fst (handle_message W None envs message)) = [])"
proof -
  let ?logs = "map (\<lambda>e. Log ''info'' ''Error calculating topic'') errs @
               map (\<lambda>e. Log ''info'' ''Error calculating the partition key'') errs'"
  have start: "doForward True attempts = Some [WgAdd, Go (GetAndSendMessages None), WgDone]"
    by (simp add: doForward_def)
  have route: "fst (handle_message W None envs message) =
               ?logs @ filter_and_send W None env message partitionKey topic"
    using assms(1-5) by (simp add: handle_message_def route_message_def)
  have pass: "filter_and_send W None env message partitionKey topic =
      CounterInc ''MessageFilteringCounter'' [''passing'', Client (Parsed message)] #
      (if tmsg = None then [ACK (Uid message)]
       else send_message W None message tmsg partitionKey topic)"
    using assms(6) by (simp add: filter_and_send_def)
  have printed_case: "\<forall>t kafkaMsg.
      tmsg = Some t \<and>
      ToKafkaMessage W
        \<lparr>Fields = Some t, Client = Client (Parsed message),
         LocalPort = LocalPort (Parsed message),
         UnixSocketPath = UnixSocketPath (Parsed message)\<rparr> partitionKey topic =
        Inr kafkaMsg \<longrightarrow>
      fst (handle_message W None envs message) =
        ?logs @
        [CounterInc ''MessageFilteringCounter'' [''passing'', Client (Parsed message)],
         Log ''info'' ''Message'', Println (Value kafkaMsg), Println [],
         ACK (Uid message)] \<and>
      printed (fst (handle_message W None envs message)) = [Value kafkaMsg, []] \<and>
      store_calls (fst (handle_message W None envs message)) = [ACK (Uid message)] \<and>
      sends (fst (handle_message W None envs message)) = []"
    by (simp add: route pass send_message_def)
  have nil_case: "tmsg = None \<longrightarrow>
      fst (handle_message W None envs message) =
        ?logs @
        [CounterInc ''MessageFilteringCounter'' [''passing'', Client (Parsed message)],
         ACK (Uid message)] \<and>
      printed (fst (handle_message W None envs message)) = [] \<and>
      store_calls (fst (handle_message W None envs message)) = [ACK (Uid message)] \<and>
      sends (fst (handle_message W None envs message)) = []"
    by (simp add: route pass)
  have error_case: "\<forall>t e.
      tmsg = Some t \<and>
      ToKafkaMessage W
        \<lparr>Fields = Some t, Client = Client (Parsed message),
         LocalPort = LocalPort (Parsed message),
         UnixSocketPath = UnixSocketPath (Parsed message)\<rparr> partitionKey topic =
        Inl e \<longrightarrow>
      fst (handle_message W None envs message) =
        ?logs @
        [CounterInc ''MessageFilteringCounter'' [''passing'', Client (Parsed message)],
         Log ''warn'' ''Error generating Kafka message'', PermError (Uid message)] \<and>
      printed (fst (handle_message W None envs message)) = [] \<and>
      store_calls (fst (handle_message W None envs message)) = [PermError (Uid message)] \<and>
      sends (fst (handle_message W None envs message)) = []"
    by (simp add: route pass send_message_def)
  show ?thesis
    using start printed_case nil_case error_case unfolding append_assoc by (intro conjI)
qed

text \<open>
  In test mode the message \<open>m1\<close> is printed and acknowledged, the message \<open>m2\<close>, for which
  the filter returns no transformed message, is acknowledged without being printed,
  and the message \<open>m3\<close>, which cannot be turned into a Kafka message, gets \<open>PermError\<close>.
\<close>

theorem test_mode_prints_and_acks_witness:
  "doForward True [] = Some [WgAdd, Go (GetAndSendMessages None), WgDone] \<and>
   fst (handle_message ex_world None Map.empty (ex_msg ''m1'' ''X'' ''h1'' ''app'' ''hello'')) =
     [CounterInc ''MessageFilteringCounter'' [''passing'', ''10.0.0.1''],
      Log ''info'' ''Message'', Println ''hello'', Println [], ACK ''m1''] \<and>
   fst (handle_message ex_world None Map.empty (ex_msg ''m2'' ''X'' ''empty'' ''app'' ''t'')) =
     [CounterInc ''MessageFilteringCounter'' [''passing'', ''10.0.0.1''], ACK ''m2''] \<and>
   fst (handle_message ex_world None Map.empty (ex_msg ''m3'' ''X'' ''h3'' ''app'' [])) =
     [CounterInc ''MessageFilteringCounter'' [''passing'', ''10.0.0.1''],
      Log ''warn'' ''Error generating Kafka message'', PermError ''m3'']"
proof -
  let ?m1 = "ex_msg ''m1'' ''X'' ''h1'' ''app'' ''hello''"
  let ?t1 = "SyslogMessage0\<lparr>Hostname := ''h1'', Appname := ''app'', Message := ''hello''\<rparr>"
  let ?m2 = "ex_msg ''m2'' ''X'' ''empty'' ''app'' ''t''"
  let ?m3 = "ex_msg ''m3'' ''X'' ''h3'' ''app'' []"
  let ?t3 = "SyslogMessage0\<lparr>Hostname := ''h3'', Appname := ''app'', Message := []\<rparr>"
  have env: "lookup_env ex_world Map.empty (ex_msg u ''X'' h a t) =
             Inr (ex_env, [''X'' \<mapsto> ex_env])" for u h a t
    by (simp add: lookup_env_def ex_world_def ex_msg_def)
  have tp: "env_Topic ex_env (Fields (Parsed (ex_msg u ''X'' h a t))) = (a, [])" for u h a t
    by (simp add: ex_env_def ex_msg_def SyslogMessage0_def)
  have pk: "env_PartitionKey ex_env (Fields (Parsed (ex_msg u ''X'' h a t))) = (h, [])"
    for u h a t
    by (simp add: ex_env_def ex_msg_def SyslogMessage0_def)
  have f1: "env_FilterMessage ex_env (Fields (Parsed ?m1)) = (Some ?t1, PASS, None)"
    by (simp add: ex_env_def ex_msg_def SyslogMessage0_def)
  have f2: "env_FilterMessage ex_env (Fields (Parsed ?m2)) = (None, PASS, None)"
    by (simp add: ex_env_def ex_msg_def SyslogMessage0_def)
  have f3: "env_FilterMessage ex_env (Fields (Parsed ?m3)) = (Some ?t3, PASS, None)"
    by (simp add: ex_env_def ex_msg_def SyslogMessage0_def)
  have k1: "ToKafkaMessage ex_world
             \<lparr>Fields = Some ?t1, Client = Client (Parsed ?m1), LocalPort = LocalPort (Parsed ?m1),
              UnixSocketPath = UnixSocketPath (Parsed ?m1)\<rparr> ''h1'' ''app'' =
           Inr \<lparr>Topic = ''app'', Key = ''h1'', Value = ''hello'', Metadata = []\<rparr>"
    by (simp add: ex_world_def ex_msg_def SyslogMessage0_def)
  have k3: "ToKafkaMessage ex_world
             \<lparr>Fields = Some ?t3, Client = Client (Parsed ?m3), LocalPort = LocalPort (Parsed ?m3),
              UnixSocketPath = UnixSocketPath (Parsed ?m3)\<rparr> ''h3'' ''app'' =
           Inl ''cannot encode''"
    by (simp add: ex_world_def ex_msg_def SyslogMessage0_def)
  have c: "Client (Parsed (ex_msg u c h a t)) = ''10.0.0.1''" "Uid (ex_msg u c h a t) = u"
    for u c h a t
    by (simp_all add: ex_msg_def)
  show ?thesis
    using test_mode_prints_and_acks [OF env tp pk _ _ f1, of "[]"]
      test_mode_prints_and_acks [OF env tp pk _ _ f2, of "[]"]
      test_mode_prints_and_acks [OF env tp pk _ _ f3, of "[]"] k1 k3
    by (simp add: c)
qed

subsection \<open>Claim C6: a message whose configuration is missing\<close>

lemma handle_message_keeps_unresolved:
  assumes "GetSyslogConfig W cid = Inl err" and "envs cid = None"
  shows "snd (handle_message W producer envs m) cid = None"
  using assms
  by (auto simp add: handle_message_def lookup_env_def Let_def split: option.splits sum.splits)

lemma handle_message_unresolved:
  assumes "GetSyslogConfig W (ConfId m) = Inl err" and "envs (ConfId m) = None"
  shows "handle_message W producer envs m =
         ([Log ''warn'' ''Could not find the stored configuration for a message'',
           PermError (Uid m)], envs)"
  using assms by (simp add: handle_message_def lookup_env_def)

lemma run_outputs_unresolved:
  assumes "GetSyslogConfig W (ConfId m) = Inl err" and "envs (ConfId m) = None"
  shows "run_outputs W producer envs (pre @ m # post) =
         take (length pre) (run_outputs W producer envs (pre @ post)) @
         [[Log ''warn'' ''Could not find the stored configuration for a message'',
           PermError (Uid m)]] @
         drop (length pre) (run_outputs W producer envs (pre @ post))"
  using assms(2)
proof (induction pre arbitrary: envs)
  case Nil
  then show ?case
    using assms(1) by (simp add: handle_message_unresolved)
next
  case (Cons a pre)
  obtain evs envs' where h: "handle_message W producer envs a = (evs, envs')"
    by (cases "handle_message W producer envs a")
  have "envs' (ConfId m) = None"
    using handle_message_keeps_unresolved [of W "ConfId m" err envs producer a]
      assms(1) Cons.prems h by simp
  then show ?case
    using Cons.IH [of envs'] h by simp
qed

text \<open>
  Claim C6. When \<open>GetSyslogConfig\<close> returns an error for the configuration of a message,
  the iteration for that message logs a warning and calls \<open>PermError\<close> on its uid, and
  does nothing else; the iterations for the messages before and after it are those of
  the session without that message.
\<close>

theorem missing_config_perm_error:
  assumes "GetSyslogConfig W (ConfId m) = Inl err"
  shows "run_outputs W producer Map.empty (pre @ m # post) =
         take (length pre) (run_outputs W producer Map.empty (pre @ post)) @
         [[Log ''warn'' ''Could not find the stored configuration for a message'',
           PermError (Uid m)]] @
         drop (length pre) (run_outputs W producer Map.empty (pre @ post))"
  using run_outputs_unresolved [OF assms, of Map.empty] by simp

theorem missing_config_perm_error_witness:
  "GetSyslogConfig ex_world (ConfId (ex_msg ''m2'' ''Y'' ''h2'' ''app'' ''lost'')) = Inl ''not found'' \<and>
   run_outputs ex_world (Some 0) Map.empty
     [ex_msg ''m1'' ''X'' ''blocked'' ''app'' ''a'', ex_msg ''m2'' ''Y'' ''h2'' ''app'' ''lost'',
      ex_msg ''m3'' ''X'' ''rejected'' ''app'' ''c''] =
   [[ACK ''m1'', CounterInc ''MessageFilteringCounter'' [''dropped'', ''10.0.0.1'']],
    [Log ''warn'' ''Could not find the stored configuration for a message'', PermError ''m2''],
    [CounterInc ''MessageFilteringCounter'' [''rejected'', ''10.0.0.1''], NACK ''m3'']]"
proof -
  have h: "GetSyslogConfig ex_world (ConfId (ex_msg ''m2'' ''Y'' ''h2'' ''app'' ''lost'')) =
           Inl ''not found''"
    by (simp add: ex_world_def ex_msg_def)
  have rest: "run_outputs ex_world (Some 0) Map.empty
      ([ex_msg ''m1'' ''X'' ''blocked'' ''app'' ''a''] @ [ex_msg ''m3'' ''X'' ''rejected'' ''app'' ''c'']) =
    [[ACK ''m1'', CounterInc ''MessageFilteringCounter'' [''dropped'', ''10.0.0.1'']],
     [CounterInc ''MessageFilteringCounter'' [''rejected'', ''10.0.0.1''], NACK ''m3'']]"
    by (simp add: ex_defs forwarder_defs)
  have u: "Uid (ex_msg u c h a t) = u" for u c h a t
    by (simp add: ex_msg_def)
  show ?thesis
    using missing_config_perm_error [OF h, of "Some 0" "[ex_msg ''m1'' ''X'' ''blocked'' ''app'' ''a'']"
        "[ex_msg ''m3'' ''X'' ''rejected'' ''app'' ''c'']"] h
    unfolding rest by (simp add: u del: run_outputs.simps)
qed


section \<open>Theorems about \<open>Forward\<close>\<close>

subsection \<open>Every step preserves the invariant\<close>

lemmas fwd_counts = session_threads_def doForward_threads_def owners_def units_def

lemma fstate_fields [simp]:
  "threads (enter p s) q = (if q = p then threads s p + 1 else threads s q)"
  "threads (leave p s) q = (if q = p then threads s p - 1 else threads s q)"
  "threads (wg_Add d s) q = threads s q"
  "wg (enter p s) = wg s" "wg (leave p s) = wg s" "wg (wg_Add d s) = wg s + d"
  "forwarding (enter p s) = forwarding s" "forwarding (leave p s) = forwarding s"
  "forwarding (wg_Add d s) = forwarding s"
  "succeeded (enter p s) = succeeded s" "succeeded (leave p s) = succeeded s"
  "succeeded (wg_Add d s) = succeeded s"
  "failed (enter p s) = failed s" "failed (leave p s) = failed s"
  "failed (wg_Add d s) = failed s"
  "cleared (enter p s) = cleared s" "cleared (leave p s) = cleared s"
  "cleared (wg_Add d s) = cleared s"
  "test (enter p s) = test s" "test (leave p s) = test s" "test (wg_Add d s) = test s"
  by (simp_all add: enter_def leave_def wg_Add_def)

lemma units_enter: "units (enter p s) = units s + weight p"
  by (cases p) (simp_all add: units_def)

lemma units_leave: "threads s p = Suc n \<Longrightarrow> units s = units (leave p s) + weight p"
  by (cases p) (simp_all add: units_def)

lemma units_ge:
  "p \<noteq> F_go_do \<Longrightarrow> threads s F_go_do + weight p * threads s p \<le> units s"
  by (cases p) (simp_all add: units_def)

lemma units_same:
  "units (wg_Add d s) = units s"
  "units (s\<lparr>forwarding := v\<rparr>) = units s"
  "units (s\<lparr>succeeded := k\<rparr>) = units s"
  "units (s\<lparr>failed := k\<rparr>) = units s"
  "units (s\<lparr>cleared := k\<rparr>) = units s"
  by (simp_all add: units_def)

lemma flag_owned_F_cas_ok:
  assumes "flag_owned s" and "threads s F_cas = Suc n" and "forwarding s = 0"
  shows "flag_owned (enter F_make ((leave F_cas s)\<lparr>forwarding := 1, succeeded := succeeded (leave F_cas s) + 1\<rparr>))"
  using assms unfolding flag_owned_def fwd_counts leave_def enter_def wg_Add_def
  by (simp; arith)

lemma flag_owned_F_cas_no:
  assumes "flag_owned s" and "threads s F_cas = Suc n" and "forwarding s \<noteq> 0"
  shows "flag_owned ((leave F_cas s)\<lparr>forwarding := forwarding s, failed := failed (leave F_cas s) + 1\<rparr>)"
  using assms unfolding flag_owned_def fwd_counts leave_def enter_def wg_Add_def
  by (simp; arith)

lemma flag_owned_F_make:
  assumes "flag_owned s" and "threads s F_make = Suc n"
  shows "flag_owned (enter F_add (leave F_make s))"
  using assms unfolding flag_owned_def fwd_counts leave_def enter_def wg_Add_def
  by (simp; arith)

lemma flag_owned_F_add:
  assumes "flag_owned s" and "threads s F_add = Suc n"
  shows "flag_owned (enter F_go_do (wg_Add 1 (leave F_add s)))"
  using assms unfolding flag_owned_def fwd_counts leave_def enter_def wg_Add_def
  by (simp; arith)

lemma flag_owned_F_go_do:
  assumes "flag_owned s" and "threads s F_go_do = Suc n"
  shows "flag_owned (enter F_go_wait (enter D_start (leave F_go_do s)))"
  using assms unfolding flag_owned_def fwd_counts leave_def enter_def wg_Add_def
  by (simp; arith)

lemma flag_owned_F_go_wait:
  assumes "flag_owned s" and "threads s F_go_wait = Suc n"
  shows "flag_owned (enter W_wait (leave F_go_wait s))"
  using assms unfolding flag_owned_def fwd_counts leave_def enter_def wg_Add_def
  by (simp; arith)

lemma flag_owned_D_start_test:
  assumes "flag_owned s" and "threads s D_start = Suc n"
  shows "flag_owned (enter D_add_send (leave D_start s))"
  using assms unfolding flag_owned_def fwd_counts leave_def enter_def wg_Add_def
  by (simp; arith)

lemma flag_owned_D_start_prod:
  assumes "flag_owned s" and "threads s D_start = Suc n"
  shows "flag_owned (enter D_add_listen (leave D_start s))"
  using assms unfolding flag_owned_def fwd_counts leave_def enter_def wg_Add_def
  by (simp; arith)

lemma flag_owned_D_start_nil:
  assumes "flag_owned s" and "threads s D_start = Suc n"
  shows "flag_owned (enter D_done (leave D_start s))"
  using assms unfolding flag_owned_def fwd_counts leave_def enter_def wg_Add_def
  by (simp; arith)

lemma flag_owned_D_add_listen:
  assumes "flag_owned s" and "threads s D_add_listen = Suc n"
  shows "flag_owned (enter D_go_listen (wg_Add 1 (leave D_add_listen s)))"
  using assms unfolding flag_owned_def fwd_counts leave_def enter_def wg_Add_def
  by (simp; arith)

lemma flag_owned_D_go_listen:
  assumes "flag_owned s" and "threads s D_go_listen = Suc n"
  shows "flag_owned (enter D_add_send (enter L_run (leave D_go_listen s)))"
  using assms unfolding flag_owned_def fwd_counts leave_def enter_def wg_Add_def
  by (simp; arith)

lemma flag_owned_D_add_send:
  assumes "flag_owned s" and "threads s D_add_send = Suc n"
  shows "flag_owned (enter D_go_send (wg_Add 1 (leave D_add_send s)))"
  using assms unfolding flag_owned_def fwd_counts leave_def enter_def wg_Add_def
  by (simp; arith)

lemma flag_owned_D_go_send:
  assumes "flag_owned s" and "threads s D_go_send = Suc n"
  shows "flag_owned (enter D_done (enter S_run (leave D_go_send s)))"
  using assms unfolding flag_owned_def fwd_counts leave_def enter_def wg_Add_def
  by (simp; arith)

lemma flag_owned_D_done:
  assumes "flag_owned s" and "threads s D_done = Suc n"
  shows "flag_owned (wg_Add (- 1) (leave D_done s))"
  using assms unfolding flag_owned_def fwd_counts leave_def enter_def wg_Add_def
  by (simp; arith)

lemma flag_owned_L_run:
  assumes "flag_owned s" and "threads s L_run = Suc n"
  shows "flag_owned (wg_Add (- 1) (leave L_run s))"
  using assms unfolding flag_owned_def fwd_counts leave_def enter_def wg_Add_def
  by (simp; arith)

lemma flag_owned_S_run:
  assumes "flag_owned s" and "threads s S_run = Suc n"
  shows "flag_owned (wg_Add (- 1) (leave S_run s))"
  using assms unfolding flag_owned_def fwd_counts leave_def enter_def wg_Add_def
  by (simp; arith)

lemma flag_owned_W_wait:
  assumes "flag_owned s" and "threads s W_wait = Suc n" and "wg s = 0"
  shows "flag_owned (enter W_store (leave W_wait s))"
  using assms unfolding flag_owned_def fwd_counts leave_def enter_def wg_Add_def
  by (simp; arith)

lemma flag_owned_W_store:
  assumes "flag_owned s" and "threads s W_store = Suc n"
  shows "flag_owned ((leave W_store s)\<lparr>forwarding := 0, cleared := cleared (leave W_store s) + 1\<rparr>)"
  using assms unfolding flag_owned_def fwd_counts leave_def enter_def wg_Add_def
  by (simp; arith)

lemma one_session_F_cas_ok:
  assumes "one_session s" and "threads s F_cas = Suc n" and "forwarding s = 0"
  shows "one_session (enter F_make ((leave F_cas s)\<lparr>forwarding := 1, succeeded := succeeded (leave F_cas s) + 1\<rparr>))"
  using assms unfolding one_session_def fwd_counts leave_def enter_def wg_Add_def
  by (simp; arith)

lemma one_session_F_cas_no:
  assumes "one_session s" and "threads s F_cas = Suc n" and "forwarding s \<noteq> 0"
  shows "one_session ((leave F_cas s)\<lparr>forwarding := forwarding s, failed := failed (leave F_cas s) + 1\<rparr>)"
  using assms unfolding one_session_def fwd_counts leave_def enter_def wg_Add_def
  by (simp; arith)

lemma one_session_F_make:
  assumes "one_session s" and "threads s F_make = Suc n"
  shows "one_session (enter F_add (leave F_make s))"
  using assms unfolding one_session_def fwd_counts leave_def enter_def wg_Add_def
  by (simp; arith)

lemma one_session_F_add:
  assumes "one_session s" and "threads s F_add = Suc n"
  shows "one_session (enter F_go_do (wg_Add 1 (leave F_add s)))"
  using assms unfolding one_session_def fwd_counts leave_def enter_def wg_Add_def
  by (simp; arith)

lemma one_session_F_go_do:
  assumes "one_session s" and "wg_counts s" and "threads s F_go_do = Suc n"
  shows "one_session (enter F_go_wait (enter D_start (leave F_go_do s)))"
  using assms unfolding one_session_def wg_counts_def fwd_counts leave_def enter_def wg_Add_def
  by (simp; arith)

lemma one_session_F_go_wait:
  assumes "one_session s" and "threads s F_go_wait = Suc n"
  shows "one_session (enter W_wait (leave F_go_wait s))"
  using assms unfolding one_session_def fwd_counts leave_def enter_def wg_Add_def
  by (simp; arith)

lemma one_session_D_start_test:
  assumes "one_session s" and "threads s D_start = Suc n"
  shows "one_session (enter D_add_send (leave D_start s))"
  using assms unfolding one_session_def fwd_counts leave_def enter_def wg_Add_def
  by (simp; arith)

lemma one_session_D_start_prod:
  assumes "one_session s" and "threads s D_start = Suc n"
  shows "one_session (enter D_add_listen (leave D_start s))"
  using assms unfolding one_session_def fwd_counts leave_def enter_def wg_Add_def
  by (simp; arith)

lemma one_session_D_start_nil:
  assumes "one_session s" and "threads s D_start = Suc n"
  shows "one_session (enter D_done (leave D_start s))"
  using assms unfolding one_session_def fwd_counts leave_def enter_def wg_Add_def
  by (simp; arith)

lemma one_session_D_add_listen:
  assumes "one_session s" and "threads s D_add_listen = Suc n"
  shows "one_session (enter D_go_listen (wg_Add 1 (leave D_add_listen s)))"
  using assms unfolding one_session_def fwd_counts leave_def enter_def wg_Add_def
  by (simp; arith)

lemma one_session_D_go_listen:
  assumes "one_session s" and "threads s D_go_listen = Suc n"
  shows "one_session (enter D_add_send (enter L_run (leave D_go_listen s)))"
  using assms unfolding one_session_def fwd_counts leave_def enter_def wg_Add_def
  by (simp; arith)

lemma one_session_D_add_send:
  assumes "one_session s" and "threads s D_add_send = Suc n"
  shows "one_session (enter D_go_send (wg_Add 1 (leave D_add_send s)))"
  using assms unfolding one_session_def fwd_counts leave_def enter_def wg_Add_def
  by (simp; arith)

lemma one_session_D_go_send:
  assumes "one_session s" and "threads s D_go_send = Suc n"
  shows "one_session (enter D_done (enter S_run (leave D_go_send s)))"
  using assms unfolding one_session_def fwd_counts leave_def enter_def wg_Add_def
  by (simp; arith)

lemma one_session_D_done:
  assumes "one_session s" and "threads s D_done = Suc n"
  shows "one_session (wg_Add (- 1) (leave D_done s))"
  using assms unfolding one_session_def fwd_counts leave_def enter_def wg_Add_def
  by (simp; arith)

lemma one_session_L_run:
  assumes "one_session s" and "threads s L_run = Suc n"
  shows "one_session (wg_Add (- 1) (leave L_run s))"
  using assms unfolding one_session_def fwd_counts leave_def enter_def wg_Add_def
  by (simp; arith)

lemma one_session_S_run:
  assumes "one_session s" and "threads s S_run = Suc n"
  shows "one_session (wg_Add (- 1) (leave S_run s))"
  using assms unfolding one_session_def fwd_counts leave_def enter_def wg_Add_def
  by (simp; arith)

lemma one_session_W_wait:
  assumes "one_session s" and "threads s W_wait = Suc n" and "wg s = 0"
  shows "one_session (enter W_store (leave W_wait s))"
  using assms unfolding one_session_def fwd_counts leave_def enter_def wg_Add_def
  by (simp; arith)

lemma one_session_W_store:
  assumes "one_session s" and "threads s W_store = Suc n"
  shows "one_session ((leave W_store s)\<lparr>forwarding := 0, cleared := cleared (leave W_store s) + 1\<rparr>)"
  using assms unfolding one_session_def fwd_counts leave_def enter_def wg_Add_def
  by (simp; arith)

lemma wg_counts_F_cas_ok:
  assumes "wg_counts s" and "flag_owned s" and "threads s F_cas = Suc n" and "forwarding s = 0"
  shows "wg_counts (enter F_make ((leave F_cas s)\<lparr>forwarding := 1, succeeded := succeeded (leave F_cas s) + 1\<rparr>))"
  using assms units_leave [of s F_cas n] units_ge [of F_cas s]
  unfolding flag_owned_def wg_counts_def owners_def
  by (simp add: units_enter units_same split: if_splits; arith)

lemma wg_counts_F_cas_no:
  assumes "wg_counts s" and "flag_owned s" and "threads s F_cas = Suc n" and "forwarding s \<noteq> 0"
  shows "wg_counts ((leave F_cas s)\<lparr>forwarding := forwarding s, failed := failed (leave F_cas s) + 1\<rparr>)"
  using assms units_leave [of s F_cas n] units_ge [of F_cas s]
  unfolding flag_owned_def wg_counts_def owners_def
  by (simp add: units_enter units_same split: if_splits; arith)

lemma wg_counts_F_make:
  assumes "wg_counts s" and "flag_owned s" and "threads s F_make = Suc n"
  shows "wg_counts (enter F_add (leave F_make s))"
  using assms units_leave [of s F_make n] units_ge [of F_make s]
  unfolding flag_owned_def wg_counts_def owners_def
  by (simp add: units_enter units_same split: if_splits; arith)

lemma wg_counts_F_add:
  assumes "wg_counts s" and "flag_owned s" and "threads s F_add = Suc n"
  shows "wg_counts (enter F_go_do (wg_Add 1 (leave F_add s)))"
  using assms units_leave [of s F_add n] units_ge [of F_add s]
  unfolding flag_owned_def wg_counts_def owners_def
  by (simp add: units_enter units_same split: if_splits; arith)

lemma wg_counts_F_go_do:
  assumes "wg_counts s" and "flag_owned s" and "threads s F_go_do = Suc n"
  shows "wg_counts (enter F_go_wait (enter D_start (leave F_go_do s)))"
  using assms units_leave [of s F_go_do n] units_ge [of F_go_do s]
  unfolding flag_owned_def wg_counts_def owners_def
  by (simp add: units_enter units_same split: if_splits; arith)

lemma wg_counts_F_go_wait:
  assumes "wg_counts s" and "flag_owned s" and "threads s F_go_wait = Suc n"
  shows "wg_counts (enter W_wait (leave F_go_wait s))"
  using assms units_leave [of s F_go_wait n] units_ge [of F_go_wait s]
  unfolding flag_owned_def wg_counts_def owners_def
  by (simp add: units_enter units_same split: if_splits; arith)

lemma wg_counts_D_start_test:
  assumes "wg_counts s" and "threads s D_start = Suc n"
  shows "wg_counts (enter D_add_send (leave D_start s))"
  using assms units_leave [of s D_start n] units_ge [of D_start s]
  unfolding wg_counts_def owners_def
  by (simp add: units_enter units_same split: if_splits; arith)

lemma wg_counts_D_start_prod:
  assumes "wg_counts s" and "threads s D_start = Suc n"
  shows "wg_counts (enter D_add_listen (leave D_start s))"
  using assms units_leave [of s D_start n] units_ge [of D_start s]
  unfolding wg_counts_def owners_def
  by (simp add: units_enter units_same split: if_splits; arith)

lemma wg_counts_D_start_nil:
  assumes "wg_counts s" and "threads s D_start = Suc n"
  shows "wg_counts (enter D_done (leave D_start s))"
  using assms units_leave [of s D_start n] units_ge [of D_start s]
  unfolding wg_counts_def owners_def
  by (simp add: units_enter units_same split: if_splits; arith)

lemma wg_counts_D_add_listen:
  assumes "wg_counts s" and "threads s D_add_listen = Suc n"
  shows "wg_counts (enter D_go_listen (wg_Add 1 (leave D_add_listen s)))"
  using assms units_leave [of s D_add_listen n] units_ge [of D_add_listen s]
  unfolding wg_counts_def owners_def
  by (simp add: units_enter units_same split: if_splits; arith)

lemma wg_counts_D_go_listen:
  assumes "wg_counts s" and "threads s D_go_listen = Suc n"
  shows "wg_counts (enter D_add_send (enter L_run (leave D_go_listen s)))"
  using assms units_leave [of s D_go_listen n] units_ge [of D_go_listen s]
  unfolding wg_counts_def owners_def
  by (simp add: units_enter units_same split: if_splits; arith)

lemma wg_counts_D_add_send:
  assumes "wg_counts s" and "threads s D_add_send = Suc n"
  shows "wg_counts (enter D_go_send (wg_Add 1 (leave D_add_send s)))"
  using assms units_leave [of s D_add_send n] units_ge [of D_add_send s]
  unfolding wg_counts_def owners_def
  by (simp add: units_enter units_same split: if_splits; arith)

lemma wg_counts_D_go_send:
  assumes "wg_counts s" and "threads s D_go_send = Suc n"
  shows "wg_counts (enter D_done (enter S_run (leave D_go_send s)))"
  using assms units_leave [of s D_go_send n] units_ge [of D_go_send s]
  unfolding wg_counts_def owners_def
  by (simp add: units_enter units_same split: if_splits; arith)

lemma wg_counts_D_done:
  assumes "wg_counts s" and "threads s D_done = Suc n"
  shows "wg_counts (wg_Add (- 1) (leave D_done s))"
  using assms units_leave [of s D_done n] units_ge [of D_done s]
  unfolding wg_counts_def owners_def
  by (simp add: units_enter units_same split: if_splits; arith)

lemma wg_counts_L_run:
  assumes "wg_counts s" and "threads s L_run = Suc n"
  shows "wg_counts (wg_Add (- 1) (leave L_run s))"
  using assms units_leave [of s L_run n] units_ge [of L_run s]
  unfolding wg_counts_def owners_def
  by (simp add: units_enter units_same split: if_splits; arith)

lemma wg_counts_S_run:
  assumes "wg_counts s" and "threads s S_run = Suc n"
  shows "wg_counts (wg_Add (- 1) (leave S_run s))"
  using assms units_leave [of s S_run n] units_ge [of S_run s]
  unfolding wg_counts_def owners_def
  by (simp add: units_enter units_same split: if_splits; arith)

lemma wg_counts_W_wait:
  assumes "wg_counts s" and "flag_owned s" and "threads s W_wait = Suc n" and "wg s = 0"
  shows "wg_counts (enter W_store (leave W_wait s))"
  using assms units_leave [of s W_wait n] units_ge [of W_wait s]
  unfolding flag_owned_def wg_counts_def owners_def
  by (simp add: units_enter units_same split: if_splits; arith)

lemma wg_counts_W_store:
  assumes "wg_counts s" and "flag_owned s" and "threads s W_store = Suc n"
  shows "wg_counts ((leave W_store s)\<lparr>forwarding := 0, cleared := cleared (leave W_store s) + 1\<rparr>)"
  using assms units_leave [of s W_store n] units_ge [of W_store s]
  unfolding flag_owned_def wg_counts_def owners_def
  by (simp add: units_enter units_same split: if_splits; arith)

lemma run_preserves_fwd_inv:
  assumes "fwd_inv s" and "threads s p \<noteq> 0" and "run p b (leave p s) = Some s'"
  shows "fwd_inv s'"
proof -
  obtain m where m: "threads s p = Suc m"
    using assms(2) by (cases "threads s p") simp_all
  have f: "flag_owned s" and w: "wg_counts s" and o: "one_session s"
    using assms(1) by (simp_all add: fwd_inv_def)
  show ?thesis
  proof (cases p)
    case F_cas
    note n = m [unfolded F_cas]
    show ?thesis
    proof (cases "forwarding s = 0")
      case True
      have s': "s' = enter F_make ((leave F_cas s)\<lparr>forwarding := 1, succeeded := succeeded (leave F_cas s) + 1\<rparr>)"
        using assms(3) F_cas True by (simp add: CompareAndSwap_0_1_def)
      show ?thesis
        unfolding s' fwd_inv_def
        using flag_owned_F_cas_ok [OF f n True] one_session_F_cas_ok [OF o n True] wg_counts_F_cas_ok [OF w f n True]
        by blast
    next
      case False
      have s': "s' = (leave F_cas s)\<lparr>forwarding := forwarding s, failed := failed (leave F_cas s) + 1\<rparr>"
        using assms(3) F_cas False by (simp add: CompareAndSwap_0_1_def)
      show ?thesis
        unfolding s' fwd_inv_def
        using flag_owned_F_cas_no [OF f n False] one_session_F_cas_no [OF o n False] wg_counts_F_cas_no [OF w f n False]
        by blast
    qed
  next
    case F_make
    note n = m [unfolded F_make]
    have s': "s' = enter F_add (leave F_make s)"
      using assms(3) F_make by simp
    show ?thesis
      unfolding s' fwd_inv_def
      using flag_owned_F_make [OF f n] one_session_F_make [OF o n] wg_counts_F_make [OF w f n]
      by blast
  next
    case F_add
    note n = m [unfolded F_add]
    have s': "s' = enter F_go_do (wg_Add 1 (leave F_add s))"
      using assms(3) F_add by simp
    show ?thesis
      unfolding s' fwd_inv_def
      using flag_owned_F_add [OF f n] one_session_F_add [OF o n] wg_counts_F_add [OF w f n]
      by blast
  next
    case F_go_do
    note n = m [unfolded F_go_do]
    have s': "s' = enter F_go_wait (enter D_start (leave F_go_do s))"
      using assms(3) F_go_do by simp
    show ?thesis
      unfolding s' fwd_inv_def
      using flag_owned_F_go_do [OF f n] one_session_F_go_do [OF o w n] wg_counts_F_go_do [OF w f n]
      by blast
  next
    case F_go_wait
    note n = m [unfolded F_go_wait]
    have s': "s' = enter W_wait (leave F_go_wait s)"
      using assms(3) F_go_wait by simp
    show ?thesis
      unfolding s' fwd_inv_def
      using flag_owned_F_go_wait [OF f n] one_session_F_go_wait [OF o n] wg_counts_F_go_wait [OF w f n]
      by blast
  next
    case D_start
    note n = m [unfolded D_start]
    show ?thesis
    proof (cases "test s")
      case True
      have s': "s' = enter D_add_send (leave D_start s)"
        using assms(3) D_start True by simp
      show ?thesis
        unfolding s' fwd_inv_def
        using flag_owned_D_start_test [OF f n] one_session_D_start_test [OF o n] wg_counts_D_start_test [OF w n]
        by blast
    next
      case False
      show ?thesis
      proof (cases b)
        case True
        have s': "s' = enter D_add_listen (leave D_start s)"
          using assms(3) D_start False True by simp
        show ?thesis
          unfolding s' fwd_inv_def
          using flag_owned_D_start_prod [OF f n] one_session_D_start_prod [OF o n] wg_counts_D_start_prod [OF w n]
          by blast
      next
        case nil: False
        have s': "s' = enter D_done (leave D_start s)"
          using assms(3) D_start False nil by simp
        show ?thesis
          unfolding s' fwd_inv_def
          using flag_owned_D_start_nil [OF f n] one_session_D_start_nil [OF o n] wg_counts_D_start_nil [OF w n]
          by blast
      qed
    qed
  next
    case D_add_listen
    note n = m [unfolded D_add_listen]
    have s': "s' = enter D_go_listen (wg_Add 1 (leave D_add_listen s))"
      using assms(3) D_add_listen by simp
    show ?thesis
      unfolding s' fwd_inv_def
      using flag_owned_D_add_listen [OF f n] one_session_D_add_listen [OF o n] wg_counts_D_add_listen [OF w n]
      by blast
  next
    case D_go_listen
    note n = m [unfolded D_go_listen]
    have s': "s' = enter D_add_send (enter L_run (leave D_go_listen s))"
      using assms(3) D_go_listen by simp
    show ?thesis
      unfolding s' fwd_inv_def
      using flag_owned_D_go_listen [OF f n] one_session_D_go_listen [OF o n] wg_counts_D_go_listen [OF w n]
      by blast
  next
    case D_add_send
    note n = m [unfolded D_add_send]
    have s': "s' = enter D_go_send (wg_Add 1 (leave D_add_send s))"
      using assms(3) D_add_send by simp
    show ?thesis
      unfolding s' fwd_inv_def
      using flag_owned_D_add_send [OF f n] one_session_D_add_send [OF o n] wg_counts_D_add_send [OF w n]
      by blast
  next
    case D_go_send
    note n = m [unfolded D_go_send]
    have s': "s' = enter D_done (enter S_run (leave D_go_send s))"
      using assms(3) D_go_send by simp
    show ?thesis
      unfolding s' fwd_inv_def
      using flag_owned_D_go_send [OF f n] one_session_D_go_send [OF o n] wg_counts_D_go_send [OF w n]
      by blast
  next
    case D_done
    note n = m [unfolded D_done]
    have s': "s' = wg_Add (- 1) (leave D_done s)"
      using assms(3) D_done by simp
    show ?thesis
      unfolding s' fwd_inv_def
      using flag_owned_D_done [OF f n] one_session_D_done [OF o n] wg_counts_D_done [OF w n]
      by blast
  next
    case L_run
    note n = m [unfolded L_run]
    have s': "s' = wg_Add (- 1) (leave L_run s)"
      using assms(3) L_run by simp
    show ?thesis
      unfolding s' fwd_inv_def
      using flag_owned_L_run [OF f n] one_session_L_run [OF o n] wg_counts_L_run [OF w n]
      by blast
  next
    case S_run
    note n = m [unfolded S_run]
    have s': "s' = wg_Add (- 1) (leave S_run s)"
      using assms(3) S_run by simp
    show ?thesis
      unfolding s' fwd_inv_def
      using flag_owned_S_run [OF f n] one_session_S_run [OF o n] wg_counts_S_run [OF w n]
      by blast
  next
    case W_wait
    note n = m [unfolded W_wait]
    have z: "wg s = 0"
      using assms(3) W_wait by (simp split: if_splits)
    have s': "s' = enter W_store (leave W_wait s)"
      using assms(3) W_wait z by simp
    show ?thesis
      unfolding s' fwd_inv_def
      using flag_owned_W_wait [OF f n z] one_session_W_wait [OF o n z] wg_counts_W_wait [OF w f n z]
      by blast
  next
    case W_store
    note n = m [unfolded W_store]
    have s': "s' = (leave W_store s)\<lparr>forwarding := 0, cleared := cleared (leave W_store s) + 1\<rparr>"
      using assms(3) W_store by simp
    show ?thesis
      unfolding s' fwd_inv_def
      using flag_owned_W_store [OF f n] one_session_W_store [OF o n] wg_counts_W_store [OF w f n]
      by blast
  qed
qed

lemma enter_F_cas_preserves_fwd_inv: "fwd_inv s \<Longrightarrow> fwd_inv (enter F_cas s)"
  unfolding fwd_inv_def flag_owned_def wg_counts_def one_session_def fwd_counts
  by simp

lemma step_preserves_fwd_inv:
  assumes "fwd_inv s" and "step s a = Some s'"
  shows "fwd_inv s'"
proof (cases a)
  case Call
  then show ?thesis
    using assms enter_F_cas_preserves_fwd_inv [of s] by (simp add: step_def)
next
  case (Run p b)
  then show ?thesis
    using assms run_preserves_fwd_inv [of s p b s'] by (simp add: step_def split: if_splits)
qed

lemma exec_preserves_fwd_inv: "fwd_inv s \<Longrightarrow> exec s acts = Some s' \<Longrightarrow> fwd_inv s'"
proof (induction acts arbitrary: s)
  case Nil
  then show ?case by simp
next
  case (Cons a acts)
  then show ?case
    by (auto split: option.splits dest: step_preserves_fwd_inv)
qed

lemma fwd_inv_init: "fwd_inv (init_fstate t)"
  by (simp add: fwd_inv_def flag_owned_def wg_counts_def one_session_def fwd_counts
      init_fstate_def)

lemma reachable_fwd_inv: "exec (init_fstate t) acts = Some s \<Longrightarrow> fwd_inv s"
  using exec_preserves_fwd_inv [OF fwd_inv_init] by blast


subsection \<open>Between two clears of the flag the first compare-and-swap wins\<close>

text \<open>
  From a state to a later one no counter decreases, and as long as the flag has not
  been cleared in between, a flag that was set stays set and the flag is set as soon as
  one compare-and-swap has run.
\<close>

lemma since_step:
  assumes "step s a = Some s'"
  shows "cleared s \<le> cleared s' \<and> succeeded s + failed s \<le> succeeded s' + failed s' \<and>
   (cleared s' = cleared s \<longrightarrow>
      (forwarding s \<noteq> 0 \<longrightarrow> forwarding s' \<noteq> 0) \<and>
      (succeeded s' + failed s' > succeeded s + failed s \<longrightarrow> forwarding s' \<noteq> 0))"
proof (cases a)
  case Call
  then show ?thesis
    using assms by (auto simp add: step_def)
next
  case (Run p b)
  then have r: "run p b (leave p s) = Some s'"
    using assms by (simp add: step_def split: if_splits)
  show ?thesis
    using r by (cases p) (auto simp add: CompareAndSwap_0_1_def split: if_splits)
qed

lemma since_exec:
  "exec s0 acts = Some s \<Longrightarrow>
   cleared s0 \<le> cleared s \<and> succeeded s0 + failed s0 \<le> succeeded s + failed s \<and>
   (cleared s = cleared s0 \<longrightarrow>
      (forwarding s0 \<noteq> 0 \<longrightarrow> forwarding s \<noteq> 0) \<and>
      (succeeded s + failed s > succeeded s0 + failed s0 \<longrightarrow> forwarding s \<noteq> 0))"
proof (induction acts arbitrary: s0)
  case Nil
  then show ?case by simp
next
  case (Cons a acts)
  then obtain s1 where a: "step s0 a = Some s1" and rest: "exec s1 acts = Some s"
    by (auto split: option.splits)
  show ?case
    using since_step [OF a] Cons.IH [OF rest] by auto
qed

subsection \<open>Claim C3: at most one forwarding session at a time\<close>

text \<open>
  Claim C3. In every state \<open>s\<close> that the goroutines can reach from a new forwarder:

  \<^item> a call of \<open>Forward\<close> that runs its compare-and-swap while the flag is set returns
    false and changes nothing else: the flag, the wait group and all other goroutines
    are as before, so no session is started;
  \<^item> at most one \<open>doForward\<close>, one listener and one sender run, they run only while the
    flag is set, and every successful call but the current one has been followed by a
    clear of the flag;
  \<^item> among the calls that run their compare-and-swap after a state \<open>s0\<close> in which the flag
    is clear and before the flag is cleared again, exactly one succeeds;
  \<^item> when the waiting goroutine is about to clear the flag, the counter of the wait group
    is zero and no goroutine of the session is left.
\<close>

theorem forward_single_session:
  assumes "exec (init_fstate t) acts0 = Some s0" and "exec s0 acts = Some s"
  shows "(forwarding s \<noteq> 0 \<and> threads s F_cas > 0 \<longrightarrow>
            step s (Run F_cas b) = Some ((leave F_cas s)\<lparr>failed := failed s + 1\<rparr>)) \<and>
         doForward_threads s \<le> 1 \<and> threads s L_run \<le> 1 \<and> threads s S_run \<le> 1 \<and>
         (session_threads s > 0 \<longrightarrow> forwarding s = 1) \<and>
         succeeded s = cleared s + (if forwarding s = 1 then 1 else 0) \<and>
         (forwarding s0 = 0 \<and> cleared s = cleared s0 \<and>
          succeeded s + failed s > succeeded s0 + failed s0 \<longrightarrow>
            succeeded s = succeeded s0 + 1) \<and>
         (threads s W_store > 0 \<longrightarrow> wg s = 0 \<and> session_threads s = 0)"
proof -
  have i0: "fwd_inv s0"
    using reachable_fwd_inv [OF assms(1)] .
  have i: "fwd_inv s"
    using exec_preserves_fwd_inv [OF i0 assms(2)] .
  have f: "flag_owned s" and w: "wg_counts s" and o: "one_session s"
    using i by (simp_all add: fwd_inv_def)
  have refused: "forwarding s \<noteq> 0 \<and> threads s F_cas > 0 \<longrightarrow>
      step s (Run F_cas b) = Some ((leave F_cas s)\<lparr>failed := failed s + 1\<rparr>)"
    by (simp add: step_def CompareAndSwap_0_1_def leave_def)
  have one: "doForward_threads s \<le> 1 \<and> threads s L_run \<le> 1 \<and> threads s S_run \<le> 1"
    using o by (simp add: one_session_def)
  have su: "session_threads s \<le> units s"
    by (simp add: session_threads_def units_def)
  have flagged: "session_threads s > 0 \<longrightarrow> forwarding s = 1"
  proof
    assume "session_threads s > 0"
    then have "units s > 0"
      using su by simp
    then have "threads s F_go_do + threads s F_go_wait + threads s W_wait > 0"
      using w by (simp add: wg_counts_def)
    then have "owners s > 0"
      by (simp add: owners_def)
    then show "forwarding s = 1"
      using f by (simp add: flag_owned_def split: if_splits)
  qed
  have counted: "succeeded s = cleared s + (if forwarding s = 1 then 1 else 0)"
    using f by (simp add: flag_owned_def)
  have first: "forwarding s0 = 0 \<and> cleared s = cleared s0 \<and>
      succeeded s + failed s > succeeded s0 + failed s0 \<longrightarrow> succeeded s = succeeded s0 + 1"
  proof
    assume h: "forwarding s0 = 0 \<and> cleared s = cleared s0 \<and>
      succeeded s + failed s > succeeded s0 + failed s0"
    have "forwarding s \<noteq> 0"
      using since_exec [OF assms(2)] h by simp
    then have "forwarding s = 1"
      using f by (simp add: flag_owned_def)
    moreover have "succeeded s0 = cleared s0"
      using i0 h by (simp add: fwd_inv_def flag_owned_def)
    ultimately show "succeeded s = succeeded s0 + 1"
      using counted h by simp
  qed
  have drained: "threads s W_store > 0 \<longrightarrow> wg s = 0 \<and> session_threads s = 0"
    using w su by (auto simp add: wg_counts_def)
  show ?thesis
    using refused one flagged counted first drained by blast
qed

theorem forward_single_session_witness:
  "exec (init_fstate False) [] = Some (init_fstate False) \<and>
   exec (init_fstate False) ex_schedule \<noteq> None \<and>
   forwarding (init_fstate False) = 0 \<and>
   cleared (the (exec (init_fstate False) ex_schedule)) = cleared (init_fstate False) \<and>
   succeeded (the (exec (init_fstate False) ex_schedule)) +
     failed (the (exec (init_fstate False) ex_schedule)) = 2 \<and>
   succeeded (the (exec (init_fstate False) ex_schedule)) = 1 \<and>
   threads (the (exec (init_fstate False) ex_schedule)) W_store = 1 \<and>
   wg (the (exec (init_fstate False) ex_schedule)) = 0 \<and>
   session_threads (the (exec (init_fstate False) ex_schedule)) = 0"
proof -
  let ?s = "the (exec (init_fstate False) ex_schedule)"
  have e0: "exec (init_fstate False) [] = Some (init_fstate False)"
    by simp
  have ne: "exec (init_fstate False) ex_schedule \<noteq> None"
    by (simp add: ex_schedule_def init_fstate_def step_def leave_def enter_def wg_Add_def
        CompareAndSwap_0_1_def)
  then have e: "exec (init_fstate False) ex_schedule = Some ?s"
    by simp
  have c: "cleared ?s = 0" and a: "succeeded ?s + failed ?s = 2"
    and ws: "threads ?s W_store = 1"
    by (simp_all add: ex_schedule_def init_fstate_def step_def leave_def enter_def wg_Add_def
        CompareAndSwap_0_1_def)
  have z: "forwarding (init_fstate False) = 0" "cleared (init_fstate False) = 0"
    "succeeded (init_fstate False) = 0" "failed (init_fstate False) = 0"
    by (simp_all add: init_fstate_def)
  show ?thesis
    using forward_single_session [OF e0 e, of False] ne c a ws z
    by simp
qed


section \<open>Theorems about the TCP service\<close>

lemma stashed_simps [simp]:
  "stashed [] = []"
  "stashed (e # evs) = stashed_message e @ stashed evs"
  "stashed (evs @ evs') = stashed evs @ stashed evs'"
  by (simp_all add: stashed_def)

lemma counters_simps [simp]:
  "counters [] = []"
  "counters (e # evs) = counter_name e @ counters evs"
  "counters (evs @ evs') = counters evs @ counters evs'"
  by (simp_all add: counters_def)

text \<open>
  Claim C7 as stated: a message that cannot be parsed is dropped, and a parsing-error
  metric is counted. The code counts the metric only behind the test \<open>s.metrics != nil\<close>:
  in a server without metrics the message \<open>garbage\<close> cannot be parsed, no counter is
  incremented and the message is only logged.
\<close>

theorem parse_error_not_counted_counterexample:
  "ex_parser (raw_Message (ex_raw ''garbage'')) (DontParseSD ex_config) = Inl ''no priority'' \<and>
   parse_raw (ex_handler False) ex_config ''10.0.0.1'' ex_gen 0 (ex_raw ''garbage'') =
     ([Log ''info'' ''Parsing error''], 0) \<and>
   counters (fst (parse_raw (ex_handler False) ex_config ''10.0.0.1'' ex_gen 0
     (ex_raw ''garbage''))) = []"
  by (simp add: parse_raw_def ex_handler_def ex_parser_def ex_raw_def ex_config_def)

lemma parse_loop_stashed:
  assumes "h_GetParser h (Format config) = Some parser"
  shows "map (\<lambda>m. Fields (Parsed m)) (stashed (fst (parse_loop h config client gen k ms))) =
           parsed_ok parser config ms \<and>
         snd (parse_loop h config client gen k ms) = k + length (parsed_ok parser config ms)"
proof (induction ms arbitrary: k)
  case Nil
  then show ?case
    by (simp add: parsed_ok_def)
next
  case (Cons m ms)
  show ?case
  proof (cases "parser (raw_Message m) (DontParseSD config)")
    case (Inl err)
    then show ?thesis
      using assms Cons.IH [of k]
      by (auto simp add: parse_raw_def parsed_ok_def Let_def split: prod.splits)
  next
    case (Inr p)
    then show ?thesis
      using assms Cons.IH [of "Suc k"]
      by (auto simp add: parse_raw_def parsed_ok_def Let_def split: prod.splits)
  qed
qed

text \<open>
  Claim C7, amended. When the parser of the format returns an error for a raw message,
  the iteration increments the parsing-error counter if the server has metrics
  (\<open>s.metrics != nil\<close>), logs the error, receives no identifier from the generator and
  does not call \<open>Stash\<close>. Over a whole connection the stashed messages are exactly the
  results of the successful parses, in order, and one identifier is received for each.
\<close>

theorem parse_error_dropped:
  assumes "h_GetParser h (Format config) = Some parser"
  shows "(\<forall>m err. parser (raw_Message m) (DontParseSD config) = Inl err \<longrightarrow>
            parse_raw h config client gen k m =
              ((if h_metrics h
                then [CounterInc ''ParsingErrorCounter'' [Format config, client]] else []) @
               [Log ''info'' ''Parsing error''], k)) \<and>
         map (\<lambda>m. Fields (Parsed m)) (stashed (fst (parse_loop h config client gen k ms))) =
           parsed_ok parser config ms \<and>
         snd (parse_loop h config client gen k ms) = k + length (parsed_ok parser config ms)"
  using assms parse_loop_stashed [OF assms, of client gen k ms]
  by (simp add: parse_raw_def)

theorem parse_error_dropped_witness:
  "h_GetParser (ex_handler True) (Format ex_config) = Some ex_parser \<and>
   parse_raw (ex_handler True) ex_config ''10.0.0.1'' ex_gen 0 (ex_raw ''garbage'') =
     ([CounterInc ''ParsingErrorCounter'' [''rfc5424'', ''10.0.0.1''],
       Log ''info'' ''Parsing error''], 0) \<and>
   map (\<lambda>m. Fields (Parsed m))
     (stashed (fst (parse_loop (ex_handler True) ex_config ''10.0.0.1'' ex_gen 0
        [ex_raw ''<13>hello'', ex_raw ''garbage'']))) =
     [Some (SyslogMessage0\<lparr>Message := ''<13>hello''\<rparr>)] \<and>
   snd (parse_loop (ex_handler True) ex_config ''10.0.0.1'' ex_gen 0
        [ex_raw ''<13>hello'', ex_raw ''garbage'']) = 1"
proof -
  have p: "h_GetParser (ex_handler True) (Format ex_config) = Some ex_parser"
    by (simp add: ex_handler_def ex_config_def)
  have bad: "ex_parser (raw_Message (ex_raw ''garbage'')) (DontParseSD ex_config) =
             Inl ''no priority''"
    by (simp add: ex_parser_def ex_raw_def)
  have ok: "parsed_ok ex_parser ex_config [ex_raw ''<13>hello'', ex_raw ''garbage''] =
            [Some (SyslogMessage0\<lparr>Message := ''<13>hello''\<rparr>)]"
    by (simp add: parsed_ok_def ex_parser_def ex_raw_def)
  have m: "h_metrics (ex_handler True)" "Format ex_config = ''rfc5424''"
    by (simp_all add: ex_handler_def ex_config_def)
  show ?thesis
    using parse_error_dropped [OF p, of "''10.0.0.1''" ex_gen 0
        "[ex_raw ''<13>hello'', ex_raw ''garbage'']"] p bad ok m
    by simp
qed


section \<open>Theorems about the journald entries\<close>

lemmas journald_defs =
  EntryToSyslog_server_def EntryToSyslog_def entry_field_server_def entry_field_def
  ToLower_def isASCII_def lower_char_def HasPrefix_underscore_def entry_get_def
  ParseInt_def Atoi_def digit_val_def MaxInt64_def MinInt64_def wrap64_def time_Unix0_def
  IsZero_def ZeroTime_def SyslogMessage0_def Let_def

text \<open>
  In \<open>services/journald.go\<close> the three numeric fields are used when their conversion
  succeeds: a timestamp of 1500000000000000 microseconds is reported as that instant, a
  timestamp that is not a number leaves the time of the conversion, and the priority 6
  with the facility 3 give the severity 6, the facility 3 and the priority 30.
\<close>

lemma EntryToSyslog_services_uses_parsed_values:
  "TimeReported (EntryToSyslog U now
     [(''_SOURCE_REALTIME_TIMESTAMP'', ''1500000000000000'')]) = 1500000000000000000"
  "TimeReported (EntryToSyslog U now [(''_SOURCE_REALTIME_TIMESTAMP'', ''yesterday'')]) = now"
  "Severity (EntryToSyslog U now [(''PRIORITY'', ''6''), (''SYSLOG_FACILITY'', ''3'')]) = 6"
  "Facility (EntryToSyslog U now [(''PRIORITY'', ''6''), (''SYSLOG_FACILITY'', ''3'')]) = 3"
  "Priority (EntryToSyslog U now [(''PRIORITY'', ''6''), (''SYSLOG_FACILITY'', ''3'')]) = 30"
  by (simp_all add: journald_defs)

text \<open>
  Claim C8 on \<open>server/journald.go\<close>, whose three tests read \<open>err != nil\<close>. A timestamp that
  is a number (1500000000000000 microseconds) is not used: the time reported is the time
  of the conversion. A timestamp that is not a number is used with the value 0 that
  \<open>ParseInt\<close> returns with its error: the time reported is the Unix epoch, not the time
  of the conversion. The priority 6 and the facility 3 are not used either: both fields
  stay 0.
\<close>

theorem EntryToSyslog_server_inverts_error_check:
  "TimeReported (EntryToSyslog_server U now
     [(''_SOURCE_REALTIME_TIMESTAMP'', ''1500000000000000'')]) = now \<and>
   TimeReported (EntryToSyslog_server U now
     [(''_SOURCE_REALTIME_TIMESTAMP'', ''yesterday'')]) = 0 \<and>
   Priority (EntryToSyslog_server U now
     [(''PRIORITY'', ''6''), (''SYSLOG_FACILITY'', ''3'')]) = 0 \<and>
   Facility (EntryToSyslog_server U now
     [(''PRIORITY'', ''6''), (''SYSLOG_FACILITY'', ''3'')]) = 0"
  by (simp add: journald_defs)


section \<open>Theorems about the supervisor\<close>

subsection \<open>Projections of the calls\<close>

lemma calls_of_simps [simp]:
  "calls_of [] = []"
  "calls_of (e # evs) = all_calls e @ calls_of evs"
  "calls_of (evs @ evs') = calls_of evs @ calls_of evs'"
  by (simp_all add: calls_of_def)

lemma store_ops_simps [simp]:
  "store_ops [] = []"
  "store_ops (GoRoutine body # evs) = store_ops body @ store_ops evs"
  "store_ops (evs @ evs') = store_ops evs @ store_ops evs'"
  by (simp_all add: store_ops_def calls_of_def)

lemma store_ops_Cons:
  "all_calls e = [e] \<Longrightarrow>
   store_ops (e # evs) = (if is_store_op e then e # store_ops evs else store_ops evs)"
  by (simp add: store_ops_def)

lemma stores_handed_simps [simp]:
  "stores_handed [] = []"
  "stores_handed (GoRoutine body # evs) = stores_handed body @ stores_handed evs"
  "stores_handed (evs @ evs') = stores_handed evs @ stores_handed evs'"
  by (simp_all add: stores_handed_def calls_of_def)

lemma stores_handed_Cons:
  "all_calls e = [e] \<Longrightarrow> stores_handed (e # evs) = store_handed e @ stores_handed evs"
  by (simp add: stores_handed_def)

lemma forwarder_calls_simps [simp]:
  "forwarder_calls [] = []"
  "forwarder_calls (e # evs) =
     (if is_forwarder_call e then e # forwarder_calls evs else forwarder_calls evs)"
  "forwarder_calls (evs @ evs') = forwarder_calls evs @ forwarder_calls evs'"
  by (simp_all add: forwarder_calls_def)

lemma goroutines_simps [simp]:
  "goroutines [] = []"
  "goroutines (e # evs) = goroutine_body e @ goroutines evs"
  "goroutines (evs @ evs') = goroutines evs @ goroutines evs'"
  by (simp_all add: goroutines_def)

lemma listeners_project_to_nothing [simp]:
  "store_ops (map RegisterTcpListener infos) = []"
  "stores_handed (map RegisterTcpListener infos) = []"
  "store_ops (map UnregisterTcpListener infos) = []"
  "stores_handed (map UnregisterTcpListener infos) = []"
  by (induction infos) (simp_all add: store_ops_Cons stores_handed_Cons)


subsection \<open>No service touches the store itself\<close>





subsection \<open>What the closures read and what they assign\<close>













subsection \<open>Claim C9: a reload does not tear down the store\<close>




subsection \<open>Claim C4: a fatal error of the broker\<close>





end
